theory Spec2Isabelle
  imports Complex_Main "HOL-Library.Word"
begin

section \<open>Shared vocabulary: exceptions and the log\<close>

text \<open>
  Both scripts are Python. Every exception the modelled code can raise is a value of
  \<open>exn\<close>; a function that may raise returns \<open>exn + 'a\<close> with \<open>Inl\<close> for the raise.
  The message texts of the source are not modelled; an exception carries the datum its
  message is built from.
\<close>

datatype exn =
    OSError string
  | FileNotFoundError string
  | ValueError string
  | TypeError
  | AttributeError
  | IndexError
  | UnicodeDecodeError
  | YAMLError
  | RuntimeError_config exn
  | RuntimeError_space

text \<open>
  A Python \<open>str\<close> read at run time is its list of code points; \<open>str\<close> gives the
  code points of a literal of the source.
\<close>

type_synonym pystr = "nat list"

definition str :: "string \<Rightarrow> pystr" where
  "str s = map of_char s"

datatype level = INFO | ERROR

datatype msg =
    MsgStart
  | MsgDeleted string
  | MsgCleanupError exn
  | MsgNoSpace rat rat
  | MsgCreatedDir
  | MsgCreating string
  | MsgSuccess string
  | MsgCritical exn
  | MsgDetected pystr
  | MsgAptUpdateError string
  | MsgAptUpgradeError string
  | MsgCleanError string
  | MsgDnfError string
  | MsgYumError string
  | MsgUnsupported
  | MsgUpdated

type_synonym log = "(level \<times> msg) list"

section \<open>backup.py: the directory model\<close>

text \<open>
  A directory is what \<open>os.listdir\<close>, \<open>os.path.getmtime\<close> and \<open>os.remove\<close> see of it:
  its entries in listing order, each with the modification time \<open>getmtime\<close> returns
  (\<open>None\<close> when it raises, as for a dangling link) and whether \<open>os.remove\<close> succeeds on
  it (it raises on a subdirectory or without permission). Modification times are only
  compared, so they are integers here. \<open>listable\<close> is false when \<open>os.listdir\<close> raises.
\<close>

record entry =
  fname :: string
  mtime :: "int option"
  removable :: bool

record dir =
  entries :: "entry list"
  listable :: bool

definition endswith :: "string \<Rightarrow> string \<Rightarrow> bool" where
  "endswith s suf = (length suf \<le> length s \<and> drop (length s - length suf) s = suf)"

definition listdir :: "dir \<Rightarrow> exn + string list" where
  "listdir d = (if listable d then Inr (map fname (entries d)) else Inl (OSError ''listdir''))"

definition getmtime :: "dir \<Rightarrow> string \<Rightarrow> exn + int" where
  "getmtime d n =
     (case find (\<lambda>f. fname f = n) (entries d) of
        None \<Rightarrow> Inl (FileNotFoundError n)
      | Some f \<Rightarrow> (case mtime f of None \<Rightarrow> Inl (OSError n) | Some t \<Rightarrow> Inr t))"

definition os_remove :: "dir \<Rightarrow> string \<Rightarrow> exn + dir" where
  "os_remove d n =
     (case find (\<lambda>f. fname f = n) (entries d) of
        None \<Rightarrow> Inl (FileNotFoundError n)
      | Some f \<Rightarrow>
          if removable f then Inr (d\<lparr>entries := filter (\<lambda>g. fname g \<noteq> n) (entries d)\<rparr>)
          else Inl (OSError n))"

text \<open>
  \<open>sorted(names, key=os.path.getmtime)\<close> first computes the key of every element, in
  order, and the first key that raises aborts the call; the sort itself is stable.
\<close>

fun mtime_keys :: "dir \<Rightarrow> string list \<Rightarrow> exn + (int \<times> string) list" where
  "mtime_keys d [] = Inr []"
| "mtime_keys d (n # ns) =
     (case getmtime d n of
        Inl e \<Rightarrow> Inl e
      | Inr t \<Rightarrow> (case mtime_keys d ns of Inl e \<Rightarrow> Inl e | Inr ks \<Rightarrow> Inr ((t, n) # ks)))"

definition sorted_by_mtime :: "dir \<Rightarrow> string list \<Rightarrow> exn + string list" where
  "sorted_by_mtime d ns =
     (case mtime_keys d ns of Inl e \<Rightarrow> Inl e | Inr ks \<Rightarrow> Inr (map snd (sort_key fst ks)))"

text \<open>Python's slice \<open>xs[:k]\<close>: a negative \<open>k\<close> counts from the end, and the bounds are clipped.\<close>

definition slice_to :: "'a list \<Rightarrow> int \<Rightarrow> 'a list" where
  "slice_to xs k = (if k < 0 then take (nat (int (length xs) + k)) xs else take (nat k) xs)"

text \<open>
  The deletion loop of \<open>cleanup_old_files\<close>: the first \<open>os.remove\<close> that raises ends the
  loop, and the files removed before it stay removed.
\<close>

fun remove_loop :: "string list \<Rightarrow> dir \<Rightarrow> log \<Rightarrow> exn option \<times> dir \<times> log" where
  "remove_loop [] d lg = (None, d, lg)"
| "remove_loop (n # ns) d lg =
     (case os_remove d n of
        Inl e \<Rightarrow> (Some e, d, lg)
      | Inr d' \<Rightarrow> remove_loop ns d' (lg @ [(INFO, MsgDeleted n)]))"

text \<open>The body of the \<open>try\<close> of \<open>cleanup_old_files\<close>, with the exception that left it, if any.\<close>

definition cleanup_try :: "dir \<Rightarrow> string \<Rightarrow> int \<Rightarrow> log \<Rightarrow> exn option \<times> dir \<times> log" where
  "cleanup_try d extension max_files lg =
     (case listdir d of
        Inl e \<Rightarrow> (Some e, d, lg)
      | Inr names \<Rightarrow>
          (case sorted_by_mtime d (filter (\<lambda>f. endswith f extension) names) of
             Inl e \<Rightarrow> (Some e, d, lg)
           | Inr files \<Rightarrow>
               if int (length files) > max_files
               then remove_loop (slice_to files (- max_files)) d lg
               else (None, d, lg)))"

definition cleanup_old_files :: "dir \<Rightarrow> string \<Rightarrow> int \<Rightarrow> log \<Rightarrow> dir \<times> log" where
  "cleanup_old_files d extension max_files lg =
     (case cleanup_try d extension max_files lg of
        (None, d', lg') \<Rightarrow> (d', lg')
      | (Some e, d', lg') \<Rightarrow> (d', lg' @ [(ERROR, MsgCleanupError e)]))"

section \<open>backup.py: the backup run\<close>

text \<open>
  The configuration as \<open>BackupManager\<close> reads it, with the fields the run uses. The
  threshold is a number of GiB; integers and finite floats are rationals.
\<close>

record config =
  backup_root :: string
  min_free_space_gb :: rat
  max_backups :: int
  max_logs :: int

text \<open>
  What a run of \<open>run_backup\<close> meets on the host: the two fields of \<open>os.statvfs\<close> on
  the backup root from which \<open>shutil.disk_usage\<close> computes its \<open>free\<close> (both unsigned
  64-bit), whether the source directory exists, the backup directory (\<open>None\<close> when it
  does not exist) and the log directory (which \<open>setup_logging\<close> has created), whether
  \<open>os.makedirs\<close> succeeds, the exception \<open>shutil.make_archive\<close> raises if it raises, the
  attributes of the archive file it writes otherwise, the local time as \<open>strftime\<close>
  formats it, and the lines logged so far. The log directory is taken as the pruner
  finds it.
\<close>

record host =
  f_bavail :: "64 word"
  f_frsize :: "64 word"
  source_exists :: bool
  backup_dir :: "dir option"
  log_dir :: dir
  makedirs_ok :: bool
  archive_raises :: "exn option"
  new_archive :: entry
  now :: string
  logged :: log

text \<open>\<open>shutil.disk_usage(path).free\<close>, a Python integer: \<open>st.f_bavail * st.f_frsize\<close>.\<close>

definition free_bytes :: "host \<Rightarrow> nat" where
  "free_bytes w = unat (f_bavail w) * unat (f_frsize w)"

definition info :: "msg \<Rightarrow> host \<Rightarrow> host" where
  "info m w = w\<lparr>logged := logged w @ [(INFO, m)]\<rparr>"

definition error :: "msg \<Rightarrow> host \<Rightarrow> host" where
  "error m w = w\<lparr>logged := logged w @ [(ERROR, m)]\<rparr>"

text \<open>
  \<open>stat.free / (1024 ** 3)\<close> is Python's true division of two integers: the double
  nearest to the exact quotient, ties to the even significand. The divisor is a power of
  two, so the double is the free byte count rounded to 53 significant bits, divided by
  \<open>2 ^ 30\<close>; a count below \<open>2 ^ 53\<close> is not changed by the rounding. The count is below
  \<open>2 ^ 128\<close>, far from the range where the division overflows. The value of a double is
  a rational, and Python compares a double with an integer or a double exactly.
\<close>

fun bit_length :: "nat \<Rightarrow> nat" where
  "bit_length n = (if n = 0 then 0 else Suc (bit_length (n div 2)))"

declare bit_length.simps [simp del]

definition round53 :: "nat \<Rightarrow> nat" where
  "round53 n =
     (if n < 2 ^ 53 then n
      else (let k = bit_length n - 53; q = n div 2 ^ k; r = n mod 2 ^ k
            in (if 2 ^ k < 2 * r \<or> (2 * r = 2 ^ k \<and> odd q) then q + 1 else q) * 2 ^ k))"

definition true_div_gib :: "nat \<Rightarrow> rat" where
  "true_div_gib n = of_nat (round53 n) / (1024 ^ 3)"

definition check_disk_space :: "config \<Rightarrow> host \<Rightarrow> bool \<times> host" where
  "check_disk_space c w =
     (let free_space_gb = true_div_gib (free_bytes w) in
      if free_space_gb < min_free_space_gb c
      then (False, error (MsgNoSpace free_space_gb (min_free_space_gb c)) w)
      else (True, w))"

definition basename :: "string \<Rightarrow> string" where
  "basename p = rev (takeWhile (\<lambda>c. c \<noteq> CHR ''/'') (rev p))"

definition empty_dir :: dir where
  "empty_dir = \<lparr>entries = [], listable = True\<rparr>"

text \<open>\<open>if not os.path.exists(self.backup_dir): os.makedirs(...)\<close>, giving the directory to write to.\<close>

definition makedirs_if_missing :: "host \<Rightarrow> exn + dir \<times> host" where
  "makedirs_if_missing w =
     (case backup_dir w of
        Some d \<Rightarrow> Inr (d, w)
      | None \<Rightarrow>
          if makedirs_ok w
          then Inr (empty_dir, info MsgCreatedDir (w\<lparr>backup_dir := Some empty_dir\<rparr>))
          else Inl (OSError ''makedirs''))"

text \<open>
  A file written under a name that exists replaces that entry; a new name is listed last
  (the position only matters between files of equal modification time).
\<close>

definition put_file :: "dir \<Rightarrow> entry \<Rightarrow> dir" where
  "put_file d e =
     d\<lparr>entries :=
        (if fname e \<in> set (map fname (entries d))
         then map (\<lambda>g. if fname g = fname e then e else g) (entries d)
         else entries d @ [e])\<rparr>"

definition make_archive :: "host \<Rightarrow> dir \<Rightarrow> string \<Rightarrow> exn + dir" where
  "make_archive w d backup_name =
     (case archive_raises w of
        Some e \<Rightarrow> Inl e
      | None \<Rightarrow> Inr (put_file d ((new_archive w)\<lparr>fname := backup_name\<rparr>)))"

text \<open>The body of the \<open>try\<close> of \<open>run_backup\<close>: the exception that left it, if any, and the host then.\<close>

definition run_backup_try :: "config \<Rightarrow> string \<Rightarrow> host \<Rightarrow> exn option \<times> host" where
  "run_backup_try c source_dir w0 =
     (let w1 = info MsgStart w0;
          (ok, w2) = check_disk_space c w1
      in if \<not> ok then (Some RuntimeError_space, w2)
         else if \<not> source_exists w2 then (Some (FileNotFoundError source_dir), w2)
         else (case makedirs_if_missing w2 of
                 Inl e \<Rightarrow> (Some e, w2)
               | Inr (bd, w3) \<Rightarrow>
                   (let backup_name = ''backup_'' @ basename source_dir @ ''_'' @ now w3 @ ''.tar.gz'';
                        w4 = info (MsgCreating backup_name) w3
                    in case make_archive w4 bd backup_name of
                         Inl e \<Rightarrow> (Some e, w4)
                       | Inr bd1 \<Rightarrow>
                           (let (bd2, lg1) = cleanup_old_files bd1 ''.tar.gz'' (max_backups c) (logged w4);
                                (ld, lg2) = cleanup_old_files (log_dir w4) ''.log'' (max_logs c) lg1
                            in (None, info (MsgSuccess backup_name)
                                        (w4\<lparr>backup_dir := Some bd2, log_dir := ld, logged := lg2\<rparr>))))))"

definition run_backup :: "config \<Rightarrow> string \<Rightarrow> host \<Rightarrow> int \<times> host" where
  "run_backup c source_dir w =
     (case run_backup_try c source_dir w of
        (None, w') \<Rightarrow> (0, w')
      | (Some e, w') \<Rightarrow> (1, error (MsgCritical e) w'))"

text \<open>\<open>sys.exit(manager.run_backup(config['source_dir']))\<close>: the exit code of the process.\<close>

definition backup_exit_code :: "config \<Rightarrow> string \<Rightarrow> host \<Rightarrow> int" where
  "backup_exit_code c source_dir w = fst (run_backup c source_dir w)"

section \<open>backup.py: the configuration loader\<close>

text \<open>
  What \<open>yaml.safe_load\<close> can return. A mapping is an association list in document order.
\<close>

datatype yaml =
    YNull
  | YBool bool
  | YInt int
  | YFloat rat
  | YStr string
  | YList "yaml list"
  | YDict "(yaml \<times> yaml) list"

text \<open>Python's \<open>sub in s\<close> on strings.\<close>

fun str_in :: "'a list \<Rightarrow> 'a list \<Rightarrow> bool" where
  "str_in sub [] = (sub = [])"
| "str_in sub (c # cs) = (take (length sub) (c # cs) = sub \<or> str_in sub cs)"

text \<open>
  \<open>field in config\<close> for a string \<open>field\<close>: key membership in a mapping, element
  membership in a sequence, substring test in a string, \<open>TypeError\<close> in a scalar.
\<close>

fun py_in :: "string \<Rightarrow> yaml \<Rightarrow> exn + bool" where
  "py_in field (YDict kvs) = Inr (YStr field \<in> set (map fst kvs))"
| "py_in field (YList xs) = Inr (YStr field \<in> set xs)"
| "py_in field (YStr s) = Inr (str_in field s)"
| "py_in field _ = Inl TypeError"

definition required_fields :: "string list" where
  "required_fields = [''backup_root'', ''min_free_space_gb'', ''max_backups'']"

fun check_fields :: "string list \<Rightarrow> yaml \<Rightarrow> exn option" where
  "check_fields [] config = None"
| "check_fields (field # rest) config =
     (case py_in field config of
        Inl e \<Rightarrow> Some e
      | Inr present \<Rightarrow> if \<not> present then Some (ValueError field) else check_fields rest config)"

fun setdefault :: "yaml \<Rightarrow> string \<Rightarrow> yaml \<Rightarrow> exn + yaml" where
  "setdefault (YDict kvs) k v =
     Inr (YDict (if YStr k \<in> set (map fst kvs) then kvs else kvs @ [(YStr k, v)]))"
| "setdefault _ k v = Inl AttributeError"

text \<open>
  The argument is the outcome of opening and parsing the file: the exception raised, or
  the document loaded.
\<close>

definition load_config_try :: "exn + yaml \<Rightarrow> exn + yaml" where
  "load_config_try loaded =
     (case loaded of
        Inl e \<Rightarrow> Inl e
      | Inr config \<Rightarrow>
          (case check_fields required_fields config of
             Some e \<Rightarrow> Inl e
           | None \<Rightarrow>
               (case setdefault config ''source_dir'' YNull of
                  Inl e \<Rightarrow> Inl e
                | Inr c1 \<Rightarrow>
                    (case setdefault c1 ''log_level'' (YStr ''INFO'') of
                       Inl e \<Rightarrow> Inl e
                     | Inr c2 \<Rightarrow> setdefault c2 ''max_logs'' (YInt 5)))))"

definition load_config :: "exn + yaml \<Rightarrow> exn + yaml" where
  "load_config loaded =
     (case load_config_try loaded of
        Inl e \<Rightarrow> Inl (RuntimeError_config e)
      | Inr config \<Rightarrow> Inr config)"

text \<open>\<open>config[key]\<close> on a loaded mapping, for reading the result.\<close>

definition lookup :: "yaml \<Rightarrow> string \<Rightarrow> yaml option" where
  "lookup config k = (case config of YDict kvs \<Rightarrow> map_of kvs (YStr k) | _ \<Rightarrow> None)"

section \<open>updateLinux.py: the distribution detector\<close>

definition startswith :: "'a list \<Rightarrow> 'a list \<Rightarrow> bool" where
  "startswith s p = (take (length p) s = p)"

text \<open>
  \<open>str.strip()\<close> removes white space at both ends; the white space of a Python \<open>str\<close>
  are the code points below. \<open>str.strip(chars)\<close> removes the given characters.
\<close>

definition isspace :: "nat \<Rightarrow> bool" where
  "isspace c =
     (c \<in> set [0x09, 0x0A, 0x0B, 0x0C, 0x0D, 0x1C, 0x1D, 0x1E, 0x1F, 0x20, 0x85, 0xA0,
               0x1680, 0x2000, 0x2001, 0x2002, 0x2003, 0x2004, 0x2005, 0x2006, 0x2007,
               0x2008, 0x2009, 0x200A, 0x2028, 0x2029, 0x202F, 0x205F, 0x3000])"

definition strip_with :: "('a \<Rightarrow> bool) \<Rightarrow> 'a list \<Rightarrow> 'a list" where
  "strip_with P s = rev (dropWhile P (rev (dropWhile P s)))"

definition strip :: "pystr \<Rightarrow> pystr" where
  "strip s = strip_with isspace s"

definition strip_chars :: "pystr \<Rightarrow> pystr \<Rightarrow> pystr" where
  "strip_chars s chars = strip_with (\<lambda>c. c \<in> set chars) s"

text \<open>\<open>str.split(sep)\<close> for a separator of one character.\<close>

fun split :: "'a list \<Rightarrow> 'a \<Rightarrow> 'a list list" where
  "split [] sep = [[]]"
| "split (c # cs) sep =
     (if c = sep then [] # split cs sep
      else (case split cs sep of [] \<Rightarrow> [[c]] | x # xs \<Rightarrow> (c # x) # xs))"

definition index :: "'a list \<Rightarrow> nat \<Rightarrow> exn + 'a" where
  "index xs i = (if i < length xs then Inr (xs ! i) else Inl IndexError)"

text \<open>The lines a text file yields when iterated: each keeps its newline, code point 10.\<close>

fun readlines :: "pystr \<Rightarrow> pystr list" where
  "readlines [] = []"
| "readlines (c # cs) =
     (if c = 0x0A then [c] # readlines cs
      else (case readlines cs of [] \<Rightarrow> [[c]] | l # ls \<Rightarrow> (c # l) # ls))"

text \<open>The loop over the lines; 61 is \<open>=\<close> and 34 the double quote.\<close>

fun scan_lines :: "pystr list \<Rightarrow> exn + pystr" where
  "scan_lines [] = Inr (str ''unknown'')"
| "scan_lines (line # rest) =
     (if startswith line (str ''ID='')
      then (case index (split (strip line) 61) 1 of
              Inl e \<Rightarrow> Inl e
            | Inr v \<Rightarrow> Inr (strip_chars v [34]))
      else scan_lines rest)"

text \<open>
  What is at \<open>/etc/os-release\<close>: nothing (\<open>os.path.exists\<close> is false); something that
  \<open>open\<close> or the decoding of the file raises on (a directory, a file without read
  permission, bytes that are not text in the locale's encoding); or a file that is read
  as the given text (decoded, newlines translated to \<open>\n\<close>).
\<close>

datatype os_release = Absent | Unreadable exn | Readable pystr

definition get_distribution :: "os_release \<Rightarrow> exn + pystr" where
  "get_distribution f =
     (case f of
        Absent \<Rightarrow> Inr (str ''unknown'')
      | Unreadable e \<Rightarrow> Inl e
      | Readable text \<Rightarrow> scan_lines (readlines text))"

text \<open>
  \<open>str.lower\<close> on the letters A to Z, and the value of an \<open>ID=\<close> line as a shell
  assignment has it (all that follows the first \<open>=\<close>), for stating what the
  specification says of the detector.
\<close>

definition lower :: "pystr \<Rightarrow> pystr" where
  "lower s = map (\<lambda>c. if 65 \<le> c \<and> c \<le> 90 then c + 32 else c) s"

definition field_value :: "pystr \<Rightarrow> pystr" where
  "field_value line = drop 3 (strip line)"

section \<open>updateLinux.py: the package command runner\<close>

text \<open>
  \<open>subprocess.run(cmd, check=True, ...)\<close> returns with the output when the command exits
  with 0, raises \<open>CalledProcessError\<close> carrying the output when it exits with another
  code, and raises something else when the command cannot be started. What a command does
  may depend on the commands run before it.
\<close>

type_synonym cmd = "string list"

datatype proc = Exit0 string | ExitNonZero string | SpawnError exn

type_synonym shell = "cmd list \<Rightarrow> cmd \<Rightarrow> proc"

record session =
  issued :: "cmd list"
  printed :: log

record updater =
  full_upgrade :: bool
  clean :: bool
  distrib_id :: pystr

definition say :: "level \<Rightarrow> msg \<Rightarrow> session \<Rightarrow> session" where
  "say l m s = s\<lparr>printed := printed s @ [(l, m)]\<rparr>"

definition run_command :: "shell \<Rightarrow> cmd \<Rightarrow> session \<Rightarrow> (exn + bool \<times> string) \<times> session" where
  "run_command sh cmd s =
     (let s' = s\<lparr>issued := issued s @ [cmd]\<rparr>
      in case sh (issued s) cmd of
           Exit0 out \<Rightarrow> (Inr (True, out), s')
         | ExitNonZero out \<Rightarrow> (Inr (False, out), s')
         | SpawnError e \<Rightarrow> (Inl e, s'))"

definition apt_update :: "shell \<Rightarrow> session \<Rightarrow> (exn + bool) \<times> session" where
  "apt_update sh s =
     (case run_command sh [''apt'', ''update''] s of
        (Inl e, s') \<Rightarrow> (Inl e, s')
      | (Inr (success, output), s') \<Rightarrow>
          (Inr success, if \<not> success then say ERROR (MsgAptUpdateError output) s' else s'))"

definition apt_upgrade :: "shell \<Rightarrow> updater \<Rightarrow> session \<Rightarrow> (exn + bool) \<times> session" where
  "apt_upgrade sh u s =
     (let cmd = (if full_upgrade u then [''apt'', ''full-upgrade'', ''-y'']
                 else [''apt'', ''upgrade'', ''-y''])
      in case run_command sh cmd s of
           (Inl e, s') \<Rightarrow> (Inl e, s')
         | (Inr (success, output), s') \<Rightarrow>
             (Inr success, if \<not> success then say ERROR (MsgAptUpgradeError output) s' else s'))"

text \<open>
  The loop shared by \<open>_apt_clean\<close>, \<open>_dnf_upgrade\<close> and \<open>_yum_upgrade\<close>: run the commands
  in order, log and return false at the first that fails.
\<close>

fun run_all :: "shell \<Rightarrow> (string \<Rightarrow> msg) \<Rightarrow> cmd list \<Rightarrow> session \<Rightarrow> (exn + bool) \<times> session" where
  "run_all sh m [] s = (Inr True, s)"
| "run_all sh m (cmd # commands) s =
     (case run_command sh cmd s of
        (Inl e, s') \<Rightarrow> (Inl e, s')
      | (Inr (success, output), s') \<Rightarrow>
          if \<not> success then (Inr False, say ERROR (m output) s')
          else run_all sh m commands s')"

text \<open>\<open>filter(None, commands)\<close> drops the entries that are \<open>None\<close>.\<close>

definition filter_None :: "'a option list \<Rightarrow> 'a list" where
  "filter_None xs = concat (map (\<lambda>x. case x of None \<Rightarrow> [] | Some c \<Rightarrow> [c]) xs)"

definition apt_clean :: "shell \<Rightarrow> session \<Rightarrow> (exn + bool) \<times> session" where
  "apt_clean sh s =
     run_all sh MsgCleanError
       [[''apt'', ''autoremove'', ''-y''],
        [''apt'', ''clean''],
        [''rm'', ''-rf'', ''/var/lib/apt/lists/*'']] s"

definition dnf_upgrade :: "shell \<Rightarrow> updater \<Rightarrow> session \<Rightarrow> (exn + bool) \<times> session" where
  "dnf_upgrade sh u s =
     run_all sh MsgDnfError
       (filter_None
          [Some [''dnf'', ''upgrade'', ''-y''],
           if clean u then Some [''dnf'', ''autoremove'', ''-y''] else None,
           if clean u then Some [''dnf'', ''clean'', ''all''] else None]) s"

definition yum_upgrade :: "shell \<Rightarrow> updater \<Rightarrow> session \<Rightarrow> (exn + bool) \<times> session" where
  "yum_upgrade sh u s =
     run_all sh MsgYumError
       (filter_None
          [Some [''yum'', ''update'', ''-y''],
           if clean u then Some [''yum'', ''clean'', ''all''] else None]) s"

text \<open>The body of the \<open>try\<close> of \<open>run\<close>.\<close>

definition run_try :: "shell \<Rightarrow> updater \<Rightarrow> session \<Rightarrow> (exn + bool) \<times> session" where
  "run_try sh u s =
     (if distrib_id u \<in> set [str ''debian'', str ''ubuntu'', str ''linuxmint'']
      then (case apt_update sh s of
              (Inl e, s1) \<Rightarrow> (Inl e, s1)
            | (Inr ok1, s1) \<Rightarrow>
                if \<not> ok1 then (Inr False, s1)
                else (case apt_upgrade sh u s1 of
                        (Inl e, s2) \<Rightarrow> (Inl e, s2)
                      | (Inr ok2, s2) \<Rightarrow>
                          if \<not> ok2 then (Inr False, s2)
                          else if clean u
                          then (case apt_clean sh s2 of
                                  (Inl e, s3) \<Rightarrow> (Inl e, s3)
                                | (Inr ok3, s3) \<Rightarrow>
                                    if \<not> ok3 then (Inr False, s3)
                                    else (Inr True, say INFO MsgUpdated s3))
                          else (Inr True, say INFO MsgUpdated s2)))
      else if distrib_id u \<in> set [str ''fedora'', str ''centos'', str ''rhel'']
      then (case (if str_in (str ''fedora'') (distrib_id u) then dnf_upgrade sh u s
                  else yum_upgrade sh u s) of
              (Inl e, s1) \<Rightarrow> (Inl e, s1)
            | (Inr ok, s1) \<Rightarrow>
                if \<not> ok then (Inr False, s1) else (Inr True, say INFO MsgUpdated s1))
      else (Inr False, say ERROR MsgUnsupported s))"

definition run :: "shell \<Rightarrow> updater \<Rightarrow> session \<Rightarrow> bool \<times> session" where
  "run sh u s =
     (case run_try sh u (say INFO (MsgDetected (distrib_id u)) s) of
        (Inl e, s') \<Rightarrow> (False, say ERROR (MsgCritical e) s')
      | (Inr r, s') \<Rightarrow> (r, s'))"

text \<open>
  The main block: build the updater (which detects the distribution; an exception there
  is not caught and ends the process with code 1), run it, and exit with 0 or 1.
\<close>

definition update_main :: "shell \<Rightarrow> os_release \<Rightarrow> bool \<Rightarrow> bool \<Rightarrow> int \<times> session" where
  "update_main sh os_release full cl =
     (let s0 = \<lparr>issued = [], printed = []\<rparr>
      in case get_distribution os_release of
           Inl e \<Rightarrow> (1, s0)
         | Inr d \<Rightarrow>
             (case run sh \<lparr>full_upgrade = full, clean = cl, distrib_id = d\<rparr> s0 of
                (r, s') \<Rightarrow> (if r then 0 else 1, s')))"

section \<open>Sample inputs\<close>

definition sample_config :: config where
  "sample_config =
     \<lparr>backup_root = ''/srv/backup'', min_free_space_gb = 1, max_backups = 1, max_logs = 5\<rparr>"

text \<open>
  A host with room (5 GiB free) whose oldest archive cannot be removed and whose log
  directory cannot be listed.
\<close>

definition stubborn_host :: host where
  "stubborn_host =
     \<lparr>f_bavail = 1310720, f_frsize = 4096, source_exists = True,
      backup_dir = Some \<lparr>entries = [\<lparr>fname = ''old1.tar.gz'', mtime = Some 1, removable = False\<rparr>,
                                     \<lparr>fname = ''old2.tar.gz'', mtime = Some 2, removable = True\<rparr>],
                         listable = True\<rparr>,
      log_dir = \<lparr>entries = [\<lparr>fname = ''backup.log'', mtime = Some 9, removable = True\<rparr>],
                 listable = False\<rparr>,
      makedirs_ok = False, archive_raises = None,
      new_archive = \<lparr>fname = [], mtime = Some 7, removable = True\<rparr>,
      now = ''20240101_000000'', logged = []\<rparr>"

section \<open>The retention pruner touches matching files only\<close>

lemma os_remove_entries:
  "os_remove d n = Inr d' \<Longrightarrow> entries d' = filter (\<lambda>g. fname g \<noteq> n) (entries d)"
  by (auto simp: os_remove_def split: option.splits if_splits)

lemma remove_loop_frame:
  assumes "\<forall>n \<in> set ns. P n"
  shows "filter (\<lambda>f. \<not> P (fname f)) (entries (fst (snd (remove_loop ns d lg))))
         = filter (\<lambda>f. \<not> P (fname f)) (entries d)"
  using assms
proof (induction ns arbitrary: d lg)
  case Nil
  then show ?case by simp
next
  case (Cons n ns)
  show ?case
  proof (cases "os_remove d n")
    case (Inl e)
    then show ?thesis by simp
  next
    case (Inr d')
    have "P n" using Cons.prems by simp
    then have "filter (\<lambda>f. \<not> P (fname f)) (entries d') = filter (\<lambda>f. \<not> P (fname f)) (entries d)"
      using os_remove_entries [OF Inr] by (auto intro: filter_cong)
    moreover have "\<forall>m \<in> set ns. P m" using Cons.prems by simp
    ultimately show ?thesis using Inr Cons.IH by simp
  qed
qed

lemma mtime_keys_names: "mtime_keys d ns = Inr ks \<Longrightarrow> map snd ks = ns"
  by (induction ns arbitrary: ks) (auto split: sum.splits)

lemma sorted_by_mtime_set: "sorted_by_mtime d ns = Inr files \<Longrightarrow> set files = set ns"
proof -
  assume a: "sorted_by_mtime d ns = Inr files"
  then obtain ks where k: "mtime_keys d ns = Inr ks" and f: "files = map snd (sort_key fst ks)"
    by (auto simp: sorted_by_mtime_def split: sum.splits)
  have "set files = snd ` set ks" using f by simp
  also have "\<dots> = set (map snd ks)" by simp
  finally show ?thesis using mtime_keys_names [OF k] by simp
qed

lemma set_slice_to: "set (slice_to xs k) \<subseteq> set xs"
  by (auto simp: slice_to_def dest: in_set_takeD)

lemma cleanup_try_frame:
  "filter (\<lambda>f. \<not> endswith (fname f) ext) (entries (fst (snd (cleanup_try d ext n lg))))
   = filter (\<lambda>f. \<not> endswith (fname f) ext) (entries d)"
proof (cases "listdir d")
  case (Inl e)
  then show ?thesis by (simp add: cleanup_try_def)
next
  case (Inr names)
  show ?thesis
  proof (cases "sorted_by_mtime d (filter (\<lambda>f. endswith f ext) names)")
    case (Inl e)
    then show ?thesis using Inr by (simp add: cleanup_try_def)
  next
    case files: (Inr files)
    have "set files = set (filter (\<lambda>f. endswith f ext) names)"
      by (rule sorted_by_mtime_set [OF files])
    then have "\<forall>m \<in> set (slice_to files (- n)). endswith m ext"
      using set_slice_to [of files "- n"] by auto
    then show ?thesis
      using Inr files remove_loop_frame [of _ "\<lambda>m. endswith m ext"]
      by (simp add: cleanup_try_def)
  qed
qed

text \<open>
  C10. The retention pruner never deletes a file whose name does not end with the given
  suffix: whatever the directory, the suffix, the retained count and the failures met,
  the entries that do not match the suffix are the same after the call as before, in the
  same order and with the same attributes.
\<close>

theorem cleanup_old_files_frame:
  "filter (\<lambda>f. \<not> endswith (fname f) extension)
          (entries (fst (cleanup_old_files d extension max_files lg)))
   = filter (\<lambda>f. \<not> endswith (fname f) extension) (entries d)"
proof -
  have "entries (fst (cleanup_old_files d extension max_files lg))
        = entries (fst (snd (cleanup_try d extension max_files lg)))"
    by (simp add: cleanup_old_files_def split: prod.splits option.splits)
  then show ?thesis by (simp add: cleanup_try_frame)
qed


section \<open>The retention pruner with a retained count of zero\<close>

lemma slice_to_zero: "slice_to xs 0 = []"
  by (simp add: slice_to_def)

lemma cleanup_try_zero: "fst (snd (cleanup_try d extension 0 lg)) = d"
  by (simp add: cleanup_try_def slice_to_zero split: sum.splits)

lemma cleanup_old_files_zero: "fst (cleanup_old_files d extension 0 lg) = d"
proof -
  have "fst (cleanup_old_files d extension 0 lg) = fst (snd (cleanup_try d extension 0 lg))"
    by (simp add: cleanup_old_files_def split: prod.splits option.splits)
  then show ?thesis by (simp add: cleanup_try_zero)
qed

text \<open>
  C1. The pruner is to keep the N most recently modified matching files and delete the
  others, for every N from 0 on, so with N = 0 every matching file is to go. The code
  takes the files to delete as \<open>files[:-max_files]\<close>, which for \<open>max_files = 0\<close> is
  \<open>files[:0]\<close>, the empty list: on a directory with two removable archives and a
  retained count of 0 both archives match the suffix, their number exceeds 0, and the
  call deletes nothing and logs nothing.
\<close>

theorem cleanup_old_files_keeps_all_at_zero:
  "endswith ''a.tar.gz'' ''.tar.gz'' \<and> endswith ''b.tar.gz'' ''.tar.gz'' \<and>
   cleanup_old_files
     \<lparr>entries = [\<lparr>fname = ''a.tar.gz'', mtime = Some 1, removable = True\<rparr>,
                \<lparr>fname = ''b.tar.gz'', mtime = Some 2, removable = True\<rparr>],
      listable = True\<rparr> ''.tar.gz'' 0 []
   = (\<lparr>entries = [\<lparr>fname = ''a.tar.gz'', mtime = Some 1, removable = True\<rparr>,
                  \<lparr>fname = ''b.tar.gz'', mtime = Some 2, removable = True\<rparr>],
       listable = True\<rparr>, [])"
  by (simp add: endswith_def cleanup_old_files_def cleanup_try_def listdir_def
      sorted_by_mtime_def getmtime_def slice_to_def)

section \<open>Running the retention pruner twice\<close>

lemma find_filter_names:
  "n \<notin> D \<Longrightarrow>
   find (\<lambda>f. fname f = n) (filter (\<lambda>g. fname g \<notin> D) xs) = find (\<lambda>f. fname f = n) xs"
  by (induction xs) auto

lemma getmtime_after_removal:
  assumes "entries d' = filter (\<lambda>g. fname g \<notin> D) (entries d)" and "n \<notin> D"
  shows "getmtime d' n = getmtime d n"
  using assms by (simp add: getmtime_def find_filter_names)

lemma mtime_keys_after_removal:
  assumes "entries d' = filter (\<lambda>g. fname g \<notin> D) (entries d)"
    and "mtime_keys d ns = Inr ks"
  shows "mtime_keys d' (filter (\<lambda>n. n \<notin> D) ns) = Inr (filter (\<lambda>k. snd k \<notin> D) ks)"
  using assms(2)
proof (induction ns arbitrary: ks)
  case Nil
  then show ?case by simp
next
  case (Cons n ns)
  from Cons.prems obtain t ks' where t: "getmtime d n = Inr t"
    and ks': "mtime_keys d ns = Inr ks'" and ks: "ks = (t, n) # ks'"
    by (auto split: sum.splits)
  have ih: "mtime_keys d' (filter (\<lambda>n. n \<notin> D) ns) = Inr (filter (\<lambda>k. snd k \<notin> D) ks')"
    by (rule Cons.IH [OF ks'])
  show ?case
  proof (cases "n \<in> D")
    case True
    then show ?thesis using ih ks by simp
  next
    case False
    then have "getmtime d' n = Inr t"
      using getmtime_after_removal [OF assms(1)] t by simp
    then show ?thesis using False ih ks by simp
  qed
qed

lemma distinct_map_insort:
  "distinct (map g (insort_key f x xs)) \<longleftrightarrow> g x \<notin> g ` set xs \<and> distinct (map g xs)"
  by (induction xs) (auto simp: set_insort_key)

lemma distinct_map_sort: "distinct (map g (sort_key f xs)) = distinct (map g xs)"
  by (induction xs) (simp_all add: distinct_map_insort)

lemma sorted_by_mtime_distinct:
  assumes "sorted_by_mtime d ns = Inr files" and "distinct ns"
  shows "distinct files"
proof -
  obtain ks where k: "mtime_keys d ns = Inr ks" and f: "files = map snd (sort_key fst ks)"
    using assms(1) by (auto simp: sorted_by_mtime_def split: sum.splits)
  have "distinct (map snd ks)"
    using mtime_keys_names [OF k] assms(2) by simp
  then show ?thesis
    using f by (simp add: distinct_map_sort)
qed

lemma sorted_by_mtime_after_removal:
  assumes "entries d' = filter (\<lambda>g. fname g \<notin> D) (entries d)"
    and "sorted_by_mtime d ns = Inr files"
  shows "sorted_by_mtime d' (filter (\<lambda>n. n \<notin> D) ns) = Inr (filter (\<lambda>n. n \<notin> D) files)"
proof -
  obtain ks where k: "mtime_keys d ns = Inr ks" and f: "files = map snd (sort_key fst ks)"
    using assms(2) by (auto simp: sorted_by_mtime_def split: sum.splits)
  have "filter (\<lambda>n. n \<notin> D) (map snd (sort_key fst ks))
        = map snd (filter (\<lambda>k. snd k \<notin> D) (sort_key fst ks))"
    by (simp add: filter_map comp_def)
  also have "\<dots> = map snd (sort_key fst (filter (\<lambda>k. snd k \<notin> D) ks))"
    by (simp add: filter_sort)
  finally show ?thesis
    using mtime_keys_after_removal [OF assms(1) k] f by (simp add: sorted_by_mtime_def)
qed

lemma filter_not_in_take:
  assumes "distinct xs"
  shows "filter (\<lambda>x. x \<notin> set (take j xs)) xs = drop j xs"
proof -
  let ?P = "\<lambda>x. x \<notin> set (take j xs)"
  have "distinct (take j xs @ drop j xs)"
    using assms by simp
  then have disj: "set (take j xs) \<inter> set (drop j xs) = {}"
    by (simp only: distinct_append)
  have "\<forall>x \<in> set (drop j xs). ?P x"
    using disj by blast
  then have keep: "filter ?P (drop j xs) = drop j xs"
    by (simp only: filter_id_conv)
  have "\<forall>x \<in> set (take j xs). \<not> ?P x"
    by blast
  then have gone: "filter ?P (take j xs) = []"
    by (simp only: filter_empty_conv)
  have "filter ?P (take j xs @ drop j xs) = drop j xs"
    by (simp only: filter_append gone keep append_Nil)
  then show ?thesis
    by (simp only: append_take_drop_id)
qed

text \<open>
  What the deletion loop leaves: the names of a prefix of its list are gone, and either
  the prefix is the whole list or \<open>os.remove\<close> raises on the next name.
\<close>

lemma remove_loop_result:
  assumes "remove_loop ns d lg = (r, d', lg')"
  shows "\<exists>gone rest. ns = gone @ rest
           \<and> d' = d\<lparr>entries := filter (\<lambda>g. fname g \<notin> set gone) (entries d)\<rparr>
           \<and> (case r of None \<Rightarrow> rest = []
               | Some e \<Rightarrow> rest \<noteq> [] \<and> os_remove d' (hd rest) = Inl e)"
  using assms
proof (induction ns arbitrary: d lg)
  case Nil
  then show ?case by auto
next
  case (Cons n ns)
  show ?case
  proof (cases "os_remove d n")
    case (Inl e)
    then have "r = Some e" and "d' = d" using Cons.prems by auto
    then have "n # ns = [] @ (n # ns)
           \<and> d' = d\<lparr>entries := filter (\<lambda>g. fname g \<notin> set []) (entries d)\<rparr>
           \<and> (case r of None \<Rightarrow> n # ns = []
               | Some e \<Rightarrow> n # ns \<noteq> [] \<and> os_remove d' (hd (n # ns)) = Inl e)"
      using Inl by simp
    then show ?thesis by blast
  next
    case (Inr d1)
    then have d1: "d1 = d\<lparr>entries := filter (\<lambda>g. fname g \<noteq> n) (entries d)\<rparr>"
      by (auto simp: os_remove_def split: option.splits if_splits)
    have "remove_loop ns d1 (lg @ [(INFO, MsgDeleted n)]) = (r, d', lg')"
      using Cons.prems Inr by simp
    from Cons.IH [OF this] obtain gone rest where ns: "ns = gone @ rest"
      and d': "d' = d1\<lparr>entries := filter (\<lambda>g. fname g \<notin> set gone) (entries d1)\<rparr>"
      and r: "(case r of None \<Rightarrow> rest = []
               | Some e \<Rightarrow> rest \<noteq> [] \<and> os_remove d' (hd rest) = Inl e)"
      by blast
    have "filter (\<lambda>g. fname g \<notin> set gone) (filter (\<lambda>g. fname g \<noteq> n) (entries d))
          = filter (\<lambda>g. fname g \<notin> set (n # gone)) (entries d)"
      by (auto intro: filter_cong)
    then have "d' = d\<lparr>entries := filter (\<lambda>g. fname g \<notin> set (n # gone)) (entries d)\<rparr>"
      using d' d1 by simp
    moreover have "n # ns = (n # gone) @ rest" using ns by simp
    ultimately show ?thesis using r by blast
  qed
qed

lemma remove_loop_stuck:
  assumes "case r of None \<Rightarrow> rest = [] | Some e \<Rightarrow> rest \<noteq> [] \<and> os_remove d (hd rest) = Inl e"
  shows "remove_loop rest d lg = (r, d, lg)"
proof (cases r)
  case None
  then show ?thesis using assms by simp
next
  case (Some e)
  then obtain n ns where "rest = n # ns" and "os_remove d n = Inl e"
    using assms by (cases rest) auto
  then show ?thesis using Some by simp
qed

lemma listdir_after_removal:
  assumes "d' = d\<lparr>entries := filter (\<lambda>g. fname g \<notin> D) (entries d)\<rparr>"
    and "listdir d = Inr names"
  shows "listdir d' = Inr (filter (\<lambda>n. n \<notin> D) names)"
proof -
  have "listable d" and "names = map fname (entries d)"
    using assms(2) by (auto simp: listdir_def split: if_splits)
  then show ?thesis
    using assms(1) by (simp add: listdir_def filter_map comp_def)
qed

lemma cleanup_try_settled:
  assumes dist: "distinct (map fname (entries d))" and nonneg: "0 \<le> N"
    and first: "cleanup_try d ext N lg = (r, d1, lg1)"
  shows "snd (cleanup_try d1 ext N lg2) = (d1, lg2)"
proof (cases "listdir d")
  case (Inl e)
  then have "d1 = d" using first by (simp add: cleanup_try_def)
  then show ?thesis using Inl by (simp add: cleanup_try_def)
next
  case names: (Inr names)
  define cands where "cands = filter (\<lambda>f. endswith f ext) names"
  have names_eq: "names = map fname (entries d)"
    using names by (auto simp: listdir_def split: if_splits)
  have cands_dist: "distinct cands"
    using dist names_eq by (simp add: cands_def)
  show ?thesis
  proof (cases "sorted_by_mtime d cands")
    case (Inl e)
    then have "d1 = d" using first names by (simp add: cleanup_try_def cands_def)
    then show ?thesis using Inl names by (simp add: cleanup_try_def cands_def)
  next
    case files: (Inr files)
    have files_dist: "distinct files"
      by (rule sorted_by_mtime_distinct [OF files cands_dist])
    show ?thesis
    proof (cases "int (length files) > N")
      case False
      then have "d1 = d" using first names files by (simp add: cleanup_try_def cands_def)
      then show ?thesis using False names files by (simp add: cleanup_try_def cands_def)
    next
      case True
      define m where "m = (if N = 0 then 0 else nat (int (length files) - N))"
      have todo: "slice_to files (- N) = take m files"
        using nonneg by (auto simp: slice_to_def m_def)
      have "remove_loop (take m files) d lg = (r, d1, lg1)"
        using first names files True todo by (simp add: cleanup_try_def cands_def)
      from remove_loop_result [OF this] obtain gone rest
        where split: "take m files = gone @ rest"
          and d1: "d1 = d\<lparr>entries := filter (\<lambda>g. fname g \<notin> set gone) (entries d)\<rparr>"
          and r: "case r of None \<Rightarrow> rest = []
                  | Some e \<Rightarrow> rest \<noteq> [] \<and> os_remove d1 (hd rest) = Inl e"
        by blast
      define j where "j = length gone"
      have "take j (take m files) = gone"
        using split by (simp add: j_def)
      moreover have "j \<le> m"
        using split by (metis j_def length_append length_take le_add1 min.cobounded2 order_trans)
      ultimately have gone: "gone = take j files"
        by (simp add: min_absorb1)
      have "files = (gone @ rest) @ drop m files"
        using split by (metis append_take_drop_id)
      then have "drop j files = rest @ drop m files"
        by (metis append_assoc append_eq_conv_conj j_def)
      then have files1: "filter (\<lambda>n. n \<notin> set gone) files = rest @ drop m files"
        using filter_not_in_take [OF files_dist, of j] gone by simp
      have e1: "entries d1 = filter (\<lambda>g. fname g \<notin> set gone) (entries d)"
        using d1 by simp
      have l1: "listdir d1 = Inr (filter (\<lambda>n. n \<notin> set gone) names)"
        by (rule listdir_after_removal [OF d1 names])
      have c1: "filter (\<lambda>f. endswith f ext) (filter (\<lambda>n. n \<notin> set gone) names)
                = filter (\<lambda>n. n \<notin> set gone) cands"
        by (auto simp: cands_def intro: filter_cong)
      have s1: "sorted_by_mtime d1 (filter (\<lambda>n. n \<notin> set gone) cands)
                = Inr (rest @ drop m files)"
        using sorted_by_mtime_after_removal [OF e1 files] files1 by simp
      have second: "cleanup_try d1 ext N lg2
            = (if int (length (rest @ drop m files)) > N
               then remove_loop (slice_to (rest @ drop m files) (- N)) d1 lg2
               else (None, d1, lg2))"
        using l1 c1 s1 by (simp add: cleanup_try_def)
      show ?thesis
      proof (cases "N = 0")
        case True
        then have "slice_to (rest @ drop m files) (- N) = []"
          by (simp add: slice_to_def)
        then show ?thesis using second by simp
      next
        case False
        then have "length (drop m files) = nat N"
          using True nonneg by (simp add: m_def)
        then have len: "int (length (rest @ drop m files)) = int (length rest) + N"
          using nonneg by simp
        then have "slice_to (rest @ drop m files) (- N) = rest"
          using False nonneg by (simp add: slice_to_def)
        then have "cleanup_try d1 ext N lg2
            = (if rest \<noteq> [] then remove_loop rest d1 lg2 else (None, d1, lg2))"
          using second len by simp
        then show ?thesis
          using remove_loop_stuck [OF r, of lg2] by simp
      qed
    qed
  qed
qed

text \<open>
  C8. The pruner is idempotent. For a directory (its names distinct), a suffix and a
  retained count \<open>N\<close> (a number of files, so \<open>N \<ge> 0\<close>), a second run of the pruner
  right after the first deletes nothing: the directory after the second run is the
  directory after the first, and the second run logs no deletion (it logs nothing, or
  the one error it met). This holds also when the first run stopped at a file it could
  not remove.
\<close>

theorem cleanup_old_files_idempotent:
  assumes "distinct (map fname (entries d))" and "0 \<le> max_files"
  shows "fst (cleanup_old_files (fst (cleanup_old_files d extension max_files lg))
                extension max_files lg')
           = fst (cleanup_old_files d extension max_files lg)
         \<and> (snd (cleanup_old_files (fst (cleanup_old_files d extension max_files lg))
                   extension max_files lg') = lg'
            \<or> (\<exists>e. snd (cleanup_old_files (fst (cleanup_old_files d extension max_files lg))
                         extension max_files lg') = lg' @ [(ERROR, MsgCleanupError e)]))"
proof -
  obtain r d1 lg1 where first: "cleanup_try d extension max_files lg = (r, d1, lg1)"
    by (cases "cleanup_try d extension max_files lg") auto
  have d1: "fst (cleanup_old_files d extension max_files lg) = d1"
    using first by (cases r) (simp_all add: cleanup_old_files_def)
  have "snd (cleanup_try d1 extension max_files lg') = (d1, lg')"
    by (rule cleanup_try_settled [OF assms first])
  then obtain r2 where "cleanup_try d1 extension max_files lg' = (r2, d1, lg')"
    by (cases "cleanup_try d1 extension max_files lg'") auto
  then show ?thesis
    unfolding d1 by (cases r2) (simp_all add: cleanup_old_files_def)
qed

theorem cleanup_old_files_idempotent_witness:
  "distinct (map fname [\<lparr>fname = ''b.tar.gz'', mtime = Some 2, removable = True\<rparr>,
                        \<lparr>fname = ''notes.txt'', mtime = Some 0, removable = True\<rparr>,
                        \<lparr>fname = ''a.tar.gz'', mtime = Some 1, removable = True\<rparr>,
                        \<lparr>fname = ''c.tar.gz'', mtime = Some 3, removable = True\<rparr>])
   \<and> fst (cleanup_old_files
            \<lparr>entries = [\<lparr>fname = ''b.tar.gz'', mtime = Some 2, removable = True\<rparr>,
                       \<lparr>fname = ''notes.txt'', mtime = Some 0, removable = True\<rparr>,
                       \<lparr>fname = ''a.tar.gz'', mtime = Some 1, removable = True\<rparr>,
                       \<lparr>fname = ''c.tar.gz'', mtime = Some 3, removable = True\<rparr>],
             listable = True\<rparr> ''.tar.gz'' 1 [])
      = \<lparr>entries = [\<lparr>fname = ''notes.txt'', mtime = Some 0, removable = True\<rparr>,
                    \<lparr>fname = ''c.tar.gz'', mtime = Some 3, removable = True\<rparr>],
         listable = True\<rparr>
   \<and> cleanup_old_files
        \<lparr>entries = [\<lparr>fname = ''notes.txt'', mtime = Some 0, removable = True\<rparr>,
                   \<lparr>fname = ''c.tar.gz'', mtime = Some 3, removable = True\<rparr>],
         listable = True\<rparr> ''.tar.gz'' 1 []
      = (\<lparr>entries = [\<lparr>fname = ''notes.txt'', mtime = Some 0, removable = True\<rparr>,
                     \<lparr>fname = ''c.tar.gz'', mtime = Some 3, removable = True\<rparr>],
          listable = True\<rparr>, [])"
proof -
  let ?d = "\<lparr>entries = [\<lparr>fname = ''b.tar.gz'', mtime = Some 2, removable = True\<rparr>,
                       \<lparr>fname = ''notes.txt'', mtime = Some 0, removable = True\<rparr>,
                       \<lparr>fname = ''a.tar.gz'', mtime = Some 1, removable = True\<rparr>,
                       \<lparr>fname = ''c.tar.gz'', mtime = Some 3, removable = True\<rparr>],
             listable = True\<rparr>"
  have h1: "distinct (map fname (entries ?d))"
    by simp
  have h2: "(0::int) \<le> 1"
    by simp
  have first: "fst (cleanup_old_files ?d ''.tar.gz'' 1 [])
      = \<lparr>entries = [\<lparr>fname = ''notes.txt'', mtime = Some 0, removable = True\<rparr>,
                    \<lparr>fname = ''c.tar.gz'', mtime = Some 3, removable = True\<rparr>],
         listable = True\<rparr>"
    by (simp add: endswith_def cleanup_old_files_def cleanup_try_def listdir_def
        sorted_by_mtime_def getmtime_def slice_to_def os_remove_def)
  have second: "cleanup_old_files
        \<lparr>entries = [\<lparr>fname = ''notes.txt'', mtime = Some 0, removable = True\<rparr>,
                   \<lparr>fname = ''c.tar.gz'', mtime = Some 3, removable = True\<rparr>],
         listable = True\<rparr> ''.tar.gz'' 1 []
      = (\<lparr>entries = [\<lparr>fname = ''notes.txt'', mtime = Some 0, removable = True\<rparr>,
                     \<lparr>fname = ''c.tar.gz'', mtime = Some 3, removable = True\<rparr>],
          listable = True\<rparr>, [])"
    by (simp add: endswith_def cleanup_old_files_def cleanup_try_def listdir_def
        sorted_by_mtime_def getmtime_def slice_to_def os_remove_def)
  show ?thesis
    using first second
      cleanup_old_files_idempotent [OF h1 h2, of "''.tar.gz''" "[]" "[]"]
    by simp
qed

section \<open>What the retention pruner deletes for a positive count\<close>

lemma find_by_name:
  "n \<in> fname ` set xs \<Longrightarrow> \<exists>f \<in> set xs. find (\<lambda>f. fname f = n) xs = Some f"
  by (induction xs) auto

lemma remove_loop_all_removable:
  assumes "\<forall>f \<in> set (entries d). removable f" and "set ns \<subseteq> fname ` set (entries d)"
    and "distinct ns"
  shows "remove_loop ns d lg
         = (None, d\<lparr>entries := filter (\<lambda>g. fname g \<notin> set ns) (entries d)\<rparr>,
            lg @ map (\<lambda>n. (INFO, MsgDeleted n)) ns)"
  using assms
proof (induction ns arbitrary: d lg)
  case Nil
  then show ?case by simp
next
  case (Cons n ns)
  define d1 where "d1 = d\<lparr>entries := filter (\<lambda>g. fname g \<noteq> n) (entries d)\<rparr>"
  obtain f where "f \<in> set (entries d)" and "find (\<lambda>f. fname f = n) (entries d) = Some f"
    using find_by_name [of n "entries d"] Cons.prems(2) by auto
  then have rm: "os_remove d n = Inr d1"
    using Cons.prems(1) by (simp add: os_remove_def d1_def)
  have a1: "\<forall>f \<in> set (entries d1). removable f"
    using Cons.prems(1) by (simp add: d1_def)
  have a2: "set ns \<subseteq> fname ` set (entries d1)"
  proof
    fix x assume x: "x \<in> set ns"
    then obtain g where "g \<in> set (entries d)" and "fname g = x"
      using Cons.prems(2) by auto
    moreover have "x \<noteq> n" using x Cons.prems(3) by auto
    ultimately show "x \<in> fname ` set (entries d1)"
      by (force simp: d1_def)
  qed
  have a3: "distinct ns"
    using Cons.prems(3) by simp
  have "filter (\<lambda>g. fname g \<notin> set ns) (filter (\<lambda>g. fname g \<noteq> n) (entries d))
        = filter (\<lambda>g. fname g \<notin> set (n # ns)) (entries d)"
    by (auto intro: filter_cong)
  then have "d1\<lparr>entries := filter (\<lambda>g. fname g \<notin> set ns) (entries d1)\<rparr>
             = d\<lparr>entries := filter (\<lambda>g. fname g \<notin> set (n # ns)) (entries d)\<rparr>"
    by (simp add: d1_def)
  then show ?case
    using rm Cons.IH [OF a1 a2 a3, of "lg @ [(INFO, MsgDeleted n)]"] by simp
qed

text \<open>
  For a count \<open>N > 0\<close>, in a directory that can be listed and whose files can all be
  read and removed, the pruner deletes exactly the first \<open>len - N\<close> of the matching
  files in ascending order of modification time, logging each, and keeps the last \<open>N\<close>.
\<close>

lemma cleanup_old_files_keeps_newest:
  assumes dist: "distinct (map fname (entries d))" and "listable d"
    and rem: "\<forall>f \<in> set (entries d). removable f" and pos: "0 < N"
    and files: "sorted_by_mtime d (filter (\<lambda>f. endswith f ext) (map fname (entries d))) = Inr files"
  shows "cleanup_old_files d ext N lg
         = (d\<lparr>entries := filter (\<lambda>g. fname g \<notin> set (take (length files - nat N) files))
                                (entries d)\<rparr>,
            lg @ map (\<lambda>n. (INFO, MsgDeleted n)) (take (length files - nat N) files))"
proof -
  have ls: "listdir d = Inr (map fname (entries d))"
    using assms(2) by (simp add: listdir_def)
  show ?thesis
  proof (cases "int (length files) > N")
    case False
    then have "length files - nat N = 0" using pos by simp
    then show ?thesis
      using False ls files by (simp add: cleanup_old_files_def cleanup_try_def)
  next
    case True
    have todo: "slice_to files (- N) = take (length files - nat N) files"
      using pos by (simp add: slice_to_def nat_diff_distrib')
    have "distinct files"
      using sorted_by_mtime_distinct [OF files] dist by (simp add: distinct_map_filter)
    then have t1: "distinct (take (length files - nat N) files)"
      by simp
    have "set files \<subseteq> fname ` set (entries d)"
      using sorted_by_mtime_set [OF files] by auto
    then have t2: "set (take (length files - nat N) files) \<subseteq> fname ` set (entries d)"
      using set_take_subset by fastforce
    show ?thesis
      using True ls files todo remove_loop_all_removable [OF rem t2 t1, of lg]
      by (simp add: cleanup_old_files_def cleanup_try_def)
  qed
qed

lemma mtime_keys_sound:
  "mtime_keys d ns = Inr ks \<Longrightarrow> \<forall>k \<in> set ks. getmtime d (snd k) = Inr (fst k)"
  by (induction ns arbitrary: ks) (auto split: sum.splits)

text \<open>The order of that list: the modification times of its files ascend.\<close>

lemma sorted_by_mtime_ascending:
  assumes "sorted_by_mtime d ns = Inr files"
  shows "\<exists>ts. map (getmtime d) files = map Inr ts \<and> sorted ts"
proof -
  obtain ks where k: "mtime_keys d ns = Inr ks" and f: "files = map snd (sort_key fst ks)"
    using assms by (auto simp: sorted_by_mtime_def split: sum.splits)
  have "\<forall>k \<in> set (sort_key fst ks). getmtime d (snd k) = Inr (fst k)"
    using mtime_keys_sound [OF k] by simp
  then have "map (getmtime d) files = map Inr (map fst (sort_key fst ks))"
    using f by simp
  moreover have "sorted (map fst (sort_key fst ks))"
    by (rule sorted_sort_key)
  ultimately show ?thesis by blast
qed

section \<open>The backup run: disk space and source checks\<close>

lemma bit_length_bounds: "2 ^ k \<le> n \<Longrightarrow> n < 2 ^ Suc k \<Longrightarrow> bit_length n = Suc k"
proof (induction k arbitrary: n)
  case 0
  then have "n = 1" by simp
  then show ?case by (simp add: bit_length.simps [of "Suc 0"] bit_length.simps [of 0])
next
  case (Suc k)
  have "2 ^ k \<le> n div 2" and "n div 2 < 2 ^ Suc k"
    using Suc.prems by simp_all
  then have "bit_length (n div 2) = Suc k"
    by (rule Suc.IH)
  moreover have "(0::nat) < 2 ^ Suc k"
    by simp
  then have "n \<noteq> 0"
    using Suc.prems(1) by linarith
  ultimately show ?case
    by (simp add: bit_length.simps [of n])
qed

lemma round53_small: "n < 2 ^ 53 \<Longrightarrow> round53 n = n"
  by (simp add: round53_def)

text \<open>
  C4, as stated, fails where the double quotient is rounded. With \<open>2 ^ 54 - 1\<close> free
  bytes and a threshold of 16777216 GiB the free space in GiB is below the threshold by
  \<open>2 ^ -30\<close>, but the count has 54 bits, the division rounds it to \<open>2 ^ 54\<close>, the
  quotient is 16777216.0, and the guard returns true.
\<close>

theorem check_disk_space_rounds_up:
  "of_nat (free_bytes
      \<lparr>f_bavail = 18014398509481983, f_frsize = 1, source_exists = True, backup_dir = None,
       log_dir = empty_dir, makedirs_ok = True, archive_raises = None,
       new_archive = \<lparr>fname = [], mtime = Some 7, removable = True\<rparr>,
       now = ''20240101_000000'', logged = []\<rparr>) / (1024 ^ 3)
     < min_free_space_gb
         \<lparr>backup_root = ''/srv/backup'', min_free_space_gb = 16777216, max_backups = 3,
          max_logs = 5\<rparr>
   \<and> fst (check_disk_space
            \<lparr>backup_root = ''/srv/backup'', min_free_space_gb = 16777216, max_backups = 3,
             max_logs = 5\<rparr>
            \<lparr>f_bavail = 18014398509481983, f_frsize = 1, source_exists = True,
             backup_dir = None, log_dir = empty_dir, makedirs_ok = True, archive_raises = None,
             new_archive = \<lparr>fname = [], mtime = Some 7, removable = True\<rparr>,
             now = ''20240101_000000'', logged = []\<rparr>)"
proof -
  have "bit_length 18014398509481983 = Suc 53"
    by (rule bit_length_bounds) simp_all
  then have "round53 18014398509481983 = 18014398509481984"
    by (simp add: round53_def Let_def)
  then show ?thesis
    by (simp add: check_disk_space_def true_div_gib_def free_bytes_def Let_def)
qed

text \<open>
  C4, amended. The disk space guard returns true exactly when the free bytes of the
  backup root's volume, divided by \<open>1024 ^ 3\<close> as a double (the count rounded to 53
  significant bits), are at least \<open>min_free_space_gb\<close>; for a count below \<open>2 ^ 53\<close>
  bytes that is the exact quotient. When they are not it logs one error line with both
  values and returns false (it has no raising path), and then the backup run returns 1,
  which is the exit code of the process, and leaves the backup directory as it was: no
  archive is created and no directory either.
\<close>

theorem check_disk_space_guard:
  "(fst (check_disk_space c w) \<longleftrightarrow> min_free_space_gb c \<le> true_div_gib (free_bytes w))
   \<and> (free_bytes w < 2 ^ 53 \<longrightarrow>
        (fst (check_disk_space c w)
           \<longleftrightarrow> min_free_space_gb c \<le> of_nat (free_bytes w) / (1024 ^ 3)))
   \<and> (\<not> fst (check_disk_space c w) \<longrightarrow>
        snd (check_disk_space c w)
          = w\<lparr>logged := logged w @
                [(ERROR, MsgNoSpace (true_div_gib (free_bytes w)) (min_free_space_gb c))]\<rparr>
        \<and> fst (run_backup c source_dir w) = 1
        \<and> backup_exit_code c source_dir w = 1
        \<and> backup_dir (snd (run_backup c source_dir w)) = backup_dir w
        \<and> log_dir (snd (run_backup c source_dir w)) = log_dir w)"
proof (intro conjI impI)
  show "fst (check_disk_space c w) \<longleftrightarrow> min_free_space_gb c \<le> true_div_gib (free_bytes w)"
    by (simp add: check_disk_space_def Let_def not_less)
next
  assume "free_bytes w < 2 ^ 53"
  then have "true_div_gib (free_bytes w) = of_nat (free_bytes w) / (1024 ^ 3)"
    by (simp add: true_div_gib_def round53_small)
  then show "fst (check_disk_space c w)
           \<longleftrightarrow> min_free_space_gb c \<le> of_nat (free_bytes w) / (1024 ^ 3)"
    by (simp add: check_disk_space_def Let_def not_less)
next
  assume no: "\<not> fst (check_disk_space c w)"
  then have low: "true_div_gib (free_bytes w) < min_free_space_gb c"
    by (simp add: check_disk_space_def Let_def split: if_splits)
  have fb: "free_bytes (info MsgStart w) = free_bytes w"
    by (simp add: free_bytes_def info_def)
  show "snd (check_disk_space c w)
          = w\<lparr>logged := logged w @
                [(ERROR, MsgNoSpace (true_div_gib (free_bytes w)) (min_free_space_gb c))]\<rparr>"
    using low by (simp add: check_disk_space_def error_def Let_def)
  show "fst (run_backup c source_dir w) = 1"
    using low fb by (simp add: check_disk_space_def run_backup_def run_backup_try_def Let_def)
  then show "backup_exit_code c source_dir w = 1"
    by (simp add: backup_exit_code_def)
  show "backup_dir (snd (run_backup c source_dir w)) = backup_dir w"
    using low fb
    by (simp add: check_disk_space_def run_backup_def run_backup_try_def info_def error_def
        Let_def)
  show "log_dir (snd (run_backup c source_dir w)) = log_dir w"
    using low fb
    by (simp add: check_disk_space_def run_backup_def run_backup_try_def info_def error_def
        Let_def)
qed

theorem check_disk_space_guard_witness:
  "free_bytes
      \<lparr>f_bavail = 262144, f_frsize = 4096, source_exists = True, backup_dir = None,
       log_dir = empty_dir, makedirs_ok = True, archive_raises = None,
       new_archive = \<lparr>fname = [], mtime = Some 7, removable = True\<rparr>,
       now = ''20240101_000000'', logged = []\<rparr> < 2 ^ 53
   \<and> \<not> fst (check_disk_space
            \<lparr>backup_root = ''/srv/backup'', min_free_space_gb = 2, max_backups = 3, max_logs = 5\<rparr>
            \<lparr>f_bavail = 262144, f_frsize = 4096, source_exists = True, backup_dir = None,
             log_dir = empty_dir, makedirs_ok = True, archive_raises = None,
             new_archive = \<lparr>fname = [], mtime = Some 7, removable = True\<rparr>,
             now = ''20240101_000000'', logged = []\<rparr>)
   \<and> run_backup
        \<lparr>backup_root = ''/srv/backup'', min_free_space_gb = 2, max_backups = 3, max_logs = 5\<rparr>
        ''/home/data''
        \<lparr>f_bavail = 262144, f_frsize = 4096, source_exists = True, backup_dir = None,
         log_dir = empty_dir, makedirs_ok = True, archive_raises = None,
         new_archive = \<lparr>fname = [], mtime = Some 7, removable = True\<rparr>,
         now = ''20240101_000000'', logged = []\<rparr>
      = (1, \<lparr>f_bavail = 262144, f_frsize = 4096, source_exists = True, backup_dir = None,
             log_dir = empty_dir, makedirs_ok = True, archive_raises = None,
             new_archive = \<lparr>fname = [], mtime = Some 7, removable = True\<rparr>,
             now = ''20240101_000000'',
             logged = [(INFO, MsgStart), (ERROR, MsgNoSpace 1 2),
                       (ERROR, MsgCritical RuntimeError_space)]\<rparr>)"
  using check_disk_space_guard
    [of "\<lparr>backup_root = ''/srv/backup'', min_free_space_gb = 2, max_backups = 3, max_logs = 5\<rparr>"
        "\<lparr>f_bavail = 262144, f_frsize = 4096, source_exists = True, backup_dir = None,
          log_dir = empty_dir, makedirs_ok = True, archive_raises = None,
          new_archive = \<lparr>fname = [], mtime = Some 7, removable = True\<rparr>,
          now = ''20240101_000000'', logged = []\<rparr>" "''/home/data''"]
  by (simp add: check_disk_space_def true_div_gib_def round53_def free_bytes_def
      run_backup_def run_backup_try_def info_def error_def Let_def)

text \<open>
  C5. When the disk space check passes and the source directory does not exist, the run
  raises \<open>FileNotFoundError\<close> (the specification's SourceNotFoundError) inside its
  \<open>try\<close>, logs it as a critical error and returns 1, the exit code of the process; the
  backup directory is as before, so no archive file and no directory is created.
\<close>

theorem run_backup_source_missing:
  assumes "fst (check_disk_space c w)" and "\<not> source_exists w"
  shows "run_backup c source_dir w
           = (1, w\<lparr>logged := logged w @
                     [(INFO, MsgStart), (ERROR, MsgCritical (FileNotFoundError source_dir))]\<rparr>)
         \<and> backup_exit_code c source_dir w = 1
         \<and> backup_dir (snd (run_backup c source_dir w)) = backup_dir w"
  using assms
  by (simp add: check_disk_space_def free_bytes_def run_backup_def run_backup_try_def
      backup_exit_code_def info_def error_def Let_def split: if_splits)

theorem run_backup_source_missing_witness:
  "fst (check_disk_space
          \<lparr>backup_root = ''/srv/backup'', min_free_space_gb = 1, max_backups = 3, max_logs = 5\<rparr>
          \<lparr>f_bavail = 1310720, f_frsize = 4096, source_exists = False, backup_dir = None,
           log_dir = empty_dir, makedirs_ok = True, archive_raises = None,
           new_archive = \<lparr>fname = [], mtime = Some 7, removable = True\<rparr>,
           now = ''20240101_000000'', logged = []\<rparr>)
   \<and> run_backup
        \<lparr>backup_root = ''/srv/backup'', min_free_space_gb = 1, max_backups = 3, max_logs = 5\<rparr>
        ''/home/data''
        \<lparr>f_bavail = 1310720, f_frsize = 4096, source_exists = False, backup_dir = None,
         log_dir = empty_dir, makedirs_ok = True, archive_raises = None,
         new_archive = \<lparr>fname = [], mtime = Some 7, removable = True\<rparr>,
         now = ''20240101_000000'', logged = []\<rparr>
      = (1, \<lparr>f_bavail = 1310720, f_frsize = 4096, source_exists = False, backup_dir = None,
             log_dir = empty_dir, makedirs_ok = True, archive_raises = None,
             new_archive = \<lparr>fname = [], mtime = Some 7, removable = True\<rparr>,
             now = ''20240101_000000'',
             logged = [(INFO, MsgStart),
                       (ERROR, MsgCritical (FileNotFoundError ''/home/data''))]\<rparr>)"
proof -
  have h: "fst (check_disk_space
          \<lparr>backup_root = ''/srv/backup'', min_free_space_gb = 1, max_backups = 3, max_logs = 5\<rparr>
          \<lparr>f_bavail = 1310720, f_frsize = 4096, source_exists = False, backup_dir = None,
           log_dir = empty_dir, makedirs_ok = True, archive_raises = None,
           new_archive = \<lparr>fname = [], mtime = Some 7, removable = True\<rparr>,
           now = ''20240101_000000'', logged = []\<rparr>)"
    by (simp add: check_disk_space_def true_div_gib_def round53_def free_bytes_def Let_def)
  show ?thesis
    using h run_backup_source_missing [OF h, of "''/home/data''"] by simp
qed

section \<open>Pruner failures do not abort the run\<close>

lemma cleanup_old_files_logs_error:
  "fst (cleanup_try d extension max_files lg) = Some e \<Longrightarrow>
   (ERROR, MsgCleanupError e) \<in> set (snd (cleanup_old_files d extension max_files lg))"
  by (cases "cleanup_try d extension max_files lg") (simp add: cleanup_old_files_def)

lemma run_backup_try_archived:
  assumes "fst (check_disk_space c w)" and "source_exists w"
    and "backup_dir w = None \<longrightarrow> makedirs_ok w" and "archive_raises w = None"
  shows "fst (run_backup_try c source_dir w) = None"
proof -
  have ok: "check_disk_space c (info MsgStart w) = (True, info MsgStart w)"
    using assms(1)
    by (simp add: check_disk_space_def free_bytes_def info_def Let_def split: if_splits)
  have src: "source_exists (info MsgStart w)"
    using assms(2) by (simp add: info_def)
  obtain bd w3 where mk: "makedirs_if_missing (info MsgStart w) = Inr (bd, w3)"
    and ar: "archive_raises w3 = None"
    using assms(3,4) by (cases "backup_dir w") (auto simp: makedirs_if_missing_def info_def)
  show ?thesis
    using ok src mk ar
    by (simp add: run_backup_try_def make_archive_def info_def Let_def split: prod.splits)
qed

text \<open>
  C9. \<open>cleanup_old_files\<close> has no raising path: every exception of its listing, its
  sort keys or its deletions leaves the \<open>try\<close> body, is logged as an error, and the call
  returns. So when the disk space check passes, the source exists, the backup directory
  exists or can be created, and the archive is written, \<open>run_backup\<close> returns 0 whatever
  the two directories hold, whether or not they can be listed, and whichever of their
  files cannot be read or removed.
\<close>

theorem run_backup_survives_pruner_errors:
  assumes "fst (check_disk_space c w)" and "source_exists w"
    and "backup_dir w = None \<longrightarrow> makedirs_ok w" and "archive_raises w = None"
  shows "fst (run_backup c source_dir w) = 0
         \<and> (\<forall>d extension max_files lg e.
               fst (cleanup_try d extension max_files lg) = Some e \<longrightarrow>
               (ERROR, MsgCleanupError e) \<in> set (snd (cleanup_old_files d extension max_files lg)))"
proof -
  have "fst (run_backup_try c source_dir w) = None"
    by (rule run_backup_try_archived [OF assms])
  then have "fst (run_backup c source_dir w) = 0"
    by (cases "run_backup_try c source_dir w") (simp add: run_backup_def)
  then show ?thesis
    using cleanup_old_files_logs_error by blast
qed

theorem run_backup_survives_pruner_errors_witness:
  "fst (check_disk_space sample_config stubborn_host) \<and> source_exists stubborn_host
   \<and> backup_dir stubborn_host \<noteq> None
   \<and> archive_raises stubborn_host = None
   \<and> fst (run_backup sample_config ''/home/data'' stubborn_host) = 0
   \<and> logged (snd (run_backup sample_config ''/home/data'' stubborn_host))
       = [(INFO, MsgStart),
          (INFO, MsgCreating ''backup_data_20240101_000000.tar.gz''),
          (ERROR, MsgCleanupError (OSError ''old1.tar.gz'')),
          (ERROR, MsgCleanupError (OSError ''listdir'')),
          (INFO, MsgSuccess ''backup_data_20240101_000000.tar.gz'')]"
proof -
  have h1: "fst (check_disk_space sample_config stubborn_host)"
    by (simp add: check_disk_space_def true_div_gib_def round53_def free_bytes_def
        sample_config_def stubborn_host_def Let_def)
  have h2: "source_exists stubborn_host"
    and h3: "backup_dir stubborn_host = None \<longrightarrow> makedirs_ok stubborn_host"
    and h4: "archive_raises stubborn_host = None"
    by (simp_all add: stubborn_host_def)
  have lg: "logged (snd (run_backup sample_config ''/home/data'' stubborn_host))
       = [(INFO, MsgStart),
          (INFO, MsgCreating ''backup_data_20240101_000000.tar.gz''),
          (ERROR, MsgCleanupError (OSError ''old1.tar.gz'')),
          (ERROR, MsgCleanupError (OSError ''listdir'')),
          (INFO, MsgSuccess ''backup_data_20240101_000000.tar.gz'')]"
    by (simp add: sample_config_def stubborn_host_def run_backup_def run_backup_try_def
        check_disk_space_def true_div_gib_def round53_def free_bytes_def info_def error_def
        Let_def makedirs_if_missing_def
        make_archive_def put_file_def basename_def cleanup_old_files_def cleanup_try_def
        listdir_def sorted_by_mtime_def getmtime_def slice_to_def endswith_def os_remove_def)
  have h5: "backup_dir stubborn_host \<noteq> None"
    by (simp add: stubborn_host_def)
  show ?thesis
    using h1 h2 h4 h5 lg
      run_backup_survives_pruner_errors [OF h1 h2 h3 h4, of "''/home/data''"]
    by simp
qed

section \<open>The package command runner\<close>

text \<open>
  C6. For a distribution id among debian, ubuntu and linuxmint and without the clean
  flag, the runner issues \<open>apt update\<close> first. When that command exits with 0 it issues
  the upgrade (\<open>apt full-upgrade -y\<close> with the full flag, \<open>apt upgrade -y\<close> without)
  and nothing more, two commands in all, and the run succeeds exactly when the upgrade
  exits with 0. When \<open>apt update\<close> does not exit with 0 the upgrade is not issued and the
  run returns failure.
\<close>

theorem run_apt_two_commands:
  assumes "distrib_id u \<in> {str ''debian'', str ''ubuntu'', str ''linuxmint''}" and "\<not> clean u"
  shows "(\<forall>out. sh (issued s) [''apt'', ''update''] = Exit0 out \<longrightarrow>
            issued (snd (run sh u s))
              = issued s @ [[''apt'', ''update''],
                            [''apt'', if full_upgrade u then ''full-upgrade'' else ''upgrade'', ''-y'']]
            \<and> (fst (run sh u s) \<longleftrightarrow>
                 (\<exists>out2. sh (issued s @ [[''apt'', ''update'']])
                            [''apt'', if full_upgrade u then ''full-upgrade'' else ''upgrade'', ''-y'']
                          = Exit0 out2)))
         \<and> ((\<forall>out. sh (issued s) [''apt'', ''update''] \<noteq> Exit0 out) \<longrightarrow>
              issued (snd (run sh u s)) = issued s @ [[''apt'', ''update'']]
              \<and> \<not> fst (run sh u s))"
proof -
  have apt: "distrib_id u \<in> set [str ''debian'', str ''ubuntu'', str ''linuxmint'']"
    using assms(1) by simp
  note defs = run_def run_try_def apt_update_def apt_upgrade_def run_command_def say_def Let_def
  show ?thesis
  proof (cases "sh (issued s) [''apt'', ''update'']")
    case upd: (Exit0 out)
    show ?thesis
    proof (cases "full_upgrade u")
      case True
      then show ?thesis
        using apt assms(2) upd
        by (cases "sh (issued s @ [[''apt'', ''update'']]) [''apt'', ''full-upgrade'', ''-y'']")
           (simp_all add: defs)
    next
      case False
      then show ?thesis
        using apt assms(2) upd
        by (cases "sh (issued s @ [[''apt'', ''update'']]) [''apt'', ''upgrade'', ''-y'']")
           (simp_all add: defs)
    qed
  next
    case (ExitNonZero out)
    then show ?thesis
      using apt by (simp add: defs)
  next
    case (SpawnError e)
    then show ?thesis
      using apt by (simp add: defs)
  qed
qed

theorem run_apt_two_commands_witness:
  "distrib_id \<lparr>full_upgrade = False, clean = False, distrib_id = str ''ubuntu''\<rparr>
      \<in> {str ''debian'', str ''ubuntu'', str ''linuxmint''}
   \<and> \<not> clean \<lparr>full_upgrade = False, clean = False, distrib_id = str ''ubuntu''\<rparr>
   \<and> issued (snd (run (\<lambda>h c. Exit0 ''ok'')
                      \<lparr>full_upgrade = False, clean = False, distrib_id = str ''ubuntu''\<rparr>
                      \<lparr>issued = [], printed = []\<rparr>))
       = [[''apt'', ''update''], [''apt'', ''upgrade'', ''-y'']]
   \<and> fst (run (\<lambda>h c. Exit0 ''ok'')
              \<lparr>full_upgrade = False, clean = False, distrib_id = str ''ubuntu''\<rparr>
              \<lparr>issued = [], printed = []\<rparr>)
   \<and> issued (snd (run (\<lambda>h c. ExitNonZero ''E: no network'')
                      \<lparr>full_upgrade = False, clean = False, distrib_id = str ''ubuntu''\<rparr>
                      \<lparr>issued = [], printed = []\<rparr>))
       = [[''apt'', ''update'']]
   \<and> \<not> fst (run (\<lambda>h c. ExitNonZero ''E: no network'')
                \<lparr>full_upgrade = False, clean = False, distrib_id = str ''ubuntu''\<rparr>
                \<lparr>issued = [], printed = []\<rparr>)"
  using run_apt_two_commands
      [of "\<lparr>full_upgrade = False, clean = False, distrib_id = str ''ubuntu''\<rparr>"
          "\<lambda>h c. Exit0 ''ok''" "\<lparr>issued = [], printed = []\<rparr>"]
    run_apt_two_commands
      [of "\<lparr>full_upgrade = False, clean = False, distrib_id = str ''ubuntu''\<rparr>"
          "\<lambda>h c. ExitNonZero ''E: no network''" "\<lparr>issued = [], printed = []\<rparr>"]
  by simp

text \<open>
  C7. For every distribution id other than debian, ubuntu, linuxmint, fedora, centos and
  rhel (so also for \<open>unknown\<close>), the run logs the distribution, logs the
  unsupported-distribution error and returns failure with no command issued; and when the
  detector has returned such an id, the process issues no command and exits with code 1.
\<close>

theorem run_unsupported:
  assumes "d \<notin> {str ''debian'', str ''ubuntu'', str ''linuxmint'',
                 str ''fedora'', str ''centos'', str ''rhel''}"
  shows "(distrib_id u = d \<longrightarrow>
            run sh u s
              = (False, s\<lparr>printed := printed s @
                            [(INFO, MsgDetected d), (ERROR, MsgUnsupported)]\<rparr>))
         \<and> (get_distribution os_release = Inr d \<longrightarrow>
              update_main sh os_release full cl
                = (1, \<lparr>issued = [],
                       printed = [(INFO, MsgDetected d), (ERROR, MsgUnsupported)]\<rparr>))"
  using assms
  by (simp add: run_def run_try_def say_def update_main_def)

theorem run_unsupported_witness:
  "str ''unknown'' \<notin> {str ''debian'', str ''ubuntu'', str ''linuxmint'',
                        str ''fedora'', str ''centos'', str ''rhel''}
   \<and> get_distribution Absent = Inr (str ''unknown'')
   \<and> update_main (\<lambda>h c. Exit0 ''ok'') Absent True True
      = (1, \<lparr>issued = [],
             printed = [(INFO, MsgDetected (str ''unknown'')), (ERROR, MsgUnsupported)]\<rparr>)"
proof -
  have h: "str ''unknown'' \<notin> {str ''debian'', str ''ubuntu'', str ''linuxmint'',
                        str ''fedora'', str ''centos'', str ''rhel''}"
    by (simp add: str_def)
  show ?thesis
    using h run_unsupported
      [OF h, of "\<lparr>full_upgrade = True, clean = True, distrib_id = str ''unknown''\<rparr>"
          "\<lambda>h c. Exit0 ''ok''" "\<lparr>issued = [], printed = []\<rparr>" Absent True True]
    by (simp add: get_distribution_def)
qed

section \<open>The distribution detector\<close>

lemma str_ID: "str ''ID='' = [73, 68, 61]"
  by (simp add: str_def)

lemma dropWhile_all: "\<forall>c \<in> set xs. P c \<Longrightarrow> dropWhile P xs = []"
  by (induction xs) auto

lemma rstrip_keep:
  "\<not> P y \<Longrightarrow> rev (dropWhile P (rev (xs @ y # ys))) = xs @ y # rev (dropWhile P (rev ys))"
  by (simp add: dropWhile_append dropWhile_all)

lemma split_nonempty: "split s c \<noteq> []"
  by (induction s) (auto split: list.splits)

lemma split_at_sep: "c \<notin> set a \<Longrightarrow> split (a @ c # b) c = a # split b c"
  by (induction a) auto

lemma hd_split: "hd (split s c) = takeWhile (\<lambda>x. x \<noteq> c) s"
proof (induction s)
  case Nil
  then show ?case by simp
next
  case (Cons x xs)
  then show ?case
    using split_nonempty [of xs c] by (cases "split xs c") auto
qed

lemma startswith_ID:
  assumes "startswith line (str ''ID='')"
  shows "\<exists>r. line = [73, 68, 61] @ r"
proof -
  have "take (length [73, 68, 61 :: nat]) line = [73, 68, 61]"
    using assms unfolding startswith_def str_ID .
  then show ?thesis
    by (metis append_take_drop_id)
qed

lemma isspace_ID: "\<not> isspace 73" "\<not> isspace 68" "\<not> isspace 61"
  by (simp_all add: isspace_def)

text \<open>Stripping a line that starts with \<open>ID=\<close> keeps these three characters.\<close>

lemma strip_ID:
  "strip ([73, 68, 61] @ r) = [73, 68, 61] @ rev (dropWhile isspace (rev r))"
proof -
  have "strip ([73, 68, 61] @ r) = rev (dropWhile isspace (rev ([73, 68] @ 61 # r)))"
    by (simp add: strip_def strip_with_def isspace_ID)
  also have "\<dots> = [73, 68] @ 61 # rev (dropWhile isspace (rev r))"
    by (rule rstrip_keep) (rule isspace_ID)
  finally show ?thesis by simp
qed

lemma index_split_ID:
  fixes r :: pystr
  shows "index (split ([73, 68, 61] @ r) 61) 1 = Inr (takeWhile (\<lambda>c. c \<noteq> 61) r)"
proof -
  have "split ([73, 68] @ 61 # r) 61 = [73, 68] # split r 61"
    by (rule split_at_sep) simp
  moreover obtain x xs where x: "split r 61 = x # xs"
    using split_nonempty [of r 61] by (cases "split r 61") auto
  moreover have "x = takeWhile (\<lambda>c. c \<noteq> 61) r"
    using hd_split [of r 61] x by simp
  ultimately show ?thesis by (simp add: index_def)
qed

lemma scan_lines_ID:
  assumes "startswith line (str ''ID='')"
  shows "scan_lines (line # rest)
         = Inr (strip_chars (takeWhile (\<lambda>c. c \<noteq> 61) (field_value line)) [34])"
proof -
  obtain r where line: "line = [73, 68, 61] @ r"
    using startswith_ID [OF assms] by blast
  define r' where "r' = rev (dropWhile isspace (rev r))"
  have st: "strip line = [73, 68, 61] @ r'"
    unfolding line r'_def by (rule strip_ID)
  then have fv: "field_value line = r'"
    by (simp add: field_value_def)
  have "index (split (strip line) 61) 1 = Inr (takeWhile (\<lambda>c. c \<noteq> 61) r')"
    unfolding st by (rule index_split_ID)
  then show ?thesis
    using assms fv by simp
qed

lemma scan_lines_total: "\<exists>v. scan_lines ls = Inr v"
proof (induction ls)
  case Nil
  then show ?case by simp
next
  case (Cons line rest)
  show ?case
  proof (cases "startswith line (str ''ID='')")
    case True
    then show ?thesis using scan_lines_ID [OF True] by blast
  next
    case False
    then show ?thesis using Cons.IH by simp
  qed
qed

lemma scan_lines_skip:
  "\<forall>l \<in> set pre. \<not> startswith l (str ''ID='') \<Longrightarrow> scan_lines (pre @ ls) = scan_lines ls"
  by (induction pre) auto

text \<open>
  C2, as stated, fails in three ways. The detector does not change the case of the
  value: a release file whose only line is \<open>ID=Ubuntu\<close> yields \<open>Ubuntu\<close>, which is not
  its lowercase form. It raises when the file exists and cannot be opened or decoded,
  for there is no handler around \<open>open\<close> and the loop. And it cuts the value at a second
  \<open>=\<close>: the line \<open>ID=a=b\<close>, whose value is \<open>a=b\<close>, yields \<open>a\<close>.
\<close>

theorem get_distribution_keeps_case:
  "get_distribution (Readable (str ''ID=Ubuntu'' @ [10])) = Inr (str ''Ubuntu'')
   \<and> get_distribution (Readable (str ''ID=Ubuntu'' @ [10])) \<noteq> Inr (lower (str ''Ubuntu''))
   \<and> get_distribution (Unreadable UnicodeDecodeError) = Inl UnicodeDecodeError
   \<and> get_distribution (Readable (str ''ID=a=b'' @ [10])) = Inr (str ''a'')
   \<and> field_value (str ''ID=a=b'' @ [10]) = str ''a=b''"
  by (simp add: get_distribution_def startswith_def strip_def strip_with_def strip_chars_def
      isspace_def index_def lower_def field_value_def str_def)

text \<open>
  C2, amended. When the release file is absent the detector returns \<open>unknown\<close>. When it
  exists and cannot be opened or decoded, the exception of \<open>open\<close> or of the decoding
  leaves the detector. For every text it is read as, the detector returns without
  raising: \<open>unknown\<close> when no line starts with \<open>ID=\<close>; otherwise, from the first line
  that starts with \<open>ID=\<close>, stripped of white space at both ends, the text after \<open>ID=\<close>
  up to the next \<open>=\<close> or the end, with the double quotes at its ends removed and the
  case of its letters unchanged.
\<close>

theorem get_distribution_value:
  "get_distribution Absent = Inr (str ''unknown'')
   \<and> get_distribution (Unreadable e) = Inl e
   \<and> ((\<forall>l \<in> set (readlines text). \<not> startswith l (str ''ID=''))
        \<longrightarrow> get_distribution (Readable text) = Inr (str ''unknown''))
   \<and> (readlines text = pre @ line # post
        \<and> (\<forall>l \<in> set pre. \<not> startswith l (str ''ID='')) \<and> startswith line (str ''ID='')
        \<longrightarrow> get_distribution (Readable text)
            = Inr (strip_chars (takeWhile (\<lambda>c. c \<noteq> 61) (field_value line)) [34]))
   \<and> (\<exists>r. get_distribution (Readable text) = Inr r)"
proof (intro conjI impI)
  show "get_distribution Absent = Inr (str ''unknown'')"
    by (simp add: get_distribution_def)
next
  show "get_distribution (Unreadable e) = Inl e"
    by (simp add: get_distribution_def)
next
  assume "\<forall>l \<in> set (readlines text). \<not> startswith l (str ''ID='')"
  then have "scan_lines (readlines text @ []) = scan_lines []"
    by (rule scan_lines_skip)
  then show "get_distribution (Readable text) = Inr (str ''unknown'')"
    by (simp add: get_distribution_def)
next
  assume a: "readlines text = pre @ line # post
        \<and> (\<forall>l \<in> set pre. \<not> startswith l (str ''ID='')) \<and> startswith line (str ''ID='')"
  then have "scan_lines (readlines text) = scan_lines (line # post)"
    using scan_lines_skip [of pre "line # post"] by simp
  also have "\<dots> = Inr (strip_chars (takeWhile (\<lambda>c. c \<noteq> 61) (field_value line)) [34])"
    using a by (intro scan_lines_ID) simp
  finally show "get_distribution (Readable text)
            = Inr (strip_chars (takeWhile (\<lambda>c. c \<noteq> 61) (field_value line)) [34])"
    by (simp add: get_distribution_def)
next
  show "\<exists>r. get_distribution (Readable text) = Inr r"
    using scan_lines_total by (simp add: get_distribution_def)
qed

theorem get_distribution_value_witness:
  "list_all (\<lambda>l. \<not> startswith l (str ''ID=''))
      (readlines (str ''NAME=Fedora'' @ [10] @ str ''VERSION_ID=40'' @ [10]))
   \<and> get_distribution (Readable (str ''NAME=Fedora'' @ [10] @ str ''VERSION_ID=40'' @ [10]))
      = Inr (str ''unknown'')
   \<and> readlines (str ''NAME=Mint'' @ [10] @ str ''ID='' @ [34] @ str ''linuxmint'' @ [34, 10]
                  @ str ''ID_LIKE=ubuntu'' @ [10])
      = [str ''NAME=Mint'' @ [10]]
        @ (str ''ID='' @ [34] @ str ''linuxmint'' @ [34, 10]) # [str ''ID_LIKE=ubuntu'' @ [10]]
   \<and> list_all (\<lambda>l. \<not> startswith l (str ''ID='')) [str ''NAME=Mint'' @ [10]]
   \<and> startswith (str ''ID='' @ [34] @ str ''linuxmint'' @ [34, 10]) (str ''ID='')
   \<and> strip_chars (takeWhile (\<lambda>c. c \<noteq> 61)
                     (field_value (str ''ID='' @ [34] @ str ''linuxmint'' @ [34, 10]))) [34]
      = str ''linuxmint''
   \<and> get_distribution
        (Readable (str ''NAME=Mint'' @ [10] @ str ''ID='' @ [34] @ str ''linuxmint'' @ [34, 10]
                   @ str ''ID_LIKE=ubuntu'' @ [10]))
      = Inr (str ''linuxmint'')"
proof -
  let ?t1 = "str ''NAME=Fedora'' @ [10] @ str ''VERSION_ID=40'' @ [10]"
  let ?t2 = "str ''NAME=Mint'' @ [10] @ str ''ID='' @ [34] @ str ''linuxmint'' @ [34, 10]
                  @ str ''ID_LIKE=ubuntu'' @ [10]"
  let ?l = "str ''ID='' @ [34] @ str ''linuxmint'' @ [34, 10]"
  have h1: "\<forall>l \<in> set (readlines ?t1). \<not> startswith l (str ''ID='')"
    by (simp add: startswith_def str_def)
  have h2: "readlines ?t2 = [str ''NAME=Mint'' @ [10]] @ ?l # [str ''ID_LIKE=ubuntu'' @ [10]]"
    by (simp add: str_def)
  have h3: "\<forall>l \<in> set [str ''NAME=Mint'' @ [10]]. \<not> startswith l (str ''ID='')"
    by (simp add: startswith_def str_def)
  have h4: "startswith ?l (str ''ID='')"
    by (simp add: startswith_def str_def)
  have v: "strip_chars (takeWhile (\<lambda>c. c \<noteq> 61) (field_value ?l)) [34] = str ''linuxmint''"
    by (simp add: strip_chars_def strip_with_def strip_def field_value_def isspace_def str_def)
  have r1: "get_distribution (Readable ?t1) = Inr (str ''unknown'')"
    using h1 get_distribution_value [of UnicodeDecodeError ?t1 "[]" "[]" "[]"] by blast
  have r2: "get_distribution (Readable ?t2)
      = Inr (strip_chars (takeWhile (\<lambda>c. c \<noteq> 61) (field_value ?l)) [34])"
    using h2 h3 h4
      get_distribution_value
        [of UnicodeDecodeError ?t2 "[str ''NAME=Mint'' @ [10]]" ?l "[str ''ID_LIKE=ubuntu'' @ [10]]"]
    by blast
  show ?thesis
    using h1 h2 h3 h4 v r1 r2 unfolding list_all_iff by simp
qed

section \<open>The configuration loader\<close>

lemma check_fields_dict:
  "check_fields fs (YDict kvs) = None \<longleftrightarrow> (\<forall>f \<in> set fs. YStr f \<in> fst ` set kvs)"
  by (induction fs) auto

lemma load_config_try_not_dict:
  "\<forall>kvs. doc \<noteq> YDict kvs \<Longrightarrow> \<exists>e. load_config_try (Inr doc) = Inl e"
  by (cases doc) (auto simp: load_config_try_def split: option.splits)

lemma setdefault_lookup:
  assumes "setdefault (YDict kvs) k v = Inr c"
  shows "lookup c j = (if j = k \<and> YStr k \<notin> fst ` set kvs then Some v else lookup (YDict kvs) j)"
proof (cases "YStr k \<in> fst ` set kvs")
  case True
  then show ?thesis using assms by (auto simp: lookup_def)
next
  case False
  then have c: "c = YDict (kvs @ [(YStr k, v)])"
    using assms by auto
  have none: "map_of kvs (YStr k) = None"
    using False by (simp add: map_of_eq_None_iff)
  show ?thesis
  proof (cases "j = k")
    case True
    then show ?thesis using False none c by (simp add: lookup_def map_add_def)
  next
    case False
    then show ?thesis using c by (simp add: lookup_def map_add_def split: option.splits)
  qed
qed

lemma setdefault_keys:
  assumes "setdefault (YDict kvs) k v = Inr c"
  shows "\<exists>kvs'. c = YDict kvs' \<and> fst ` set kvs' = insert (YStr k) (fst ` set kvs)"
  using assms by auto

text \<open>
  C3. A document in which one of \<open>backup_root\<close>, \<open>min_free_space_gb\<close>, \<open>max_backups\<close>
  is absent makes \<open>load_config\<close> raise its \<open>RuntimeError\<close> (the specification's
  ConfigError) and return no configuration; this holds for a mapping that lacks a key and
  for a document that is no mapping at all. For a mapping with all three keys it returns
  a mapping in which every key of the document keeps its value, and \<open>source_dir\<close>,
  \<open>log_level\<close>, \<open>max_logs\<close> are \<open>None\<close>, \<open>INFO\<close>, 5 where the document had no such key.
\<close>

theorem load_config_required_and_defaults:
  "((\<forall>kvs. doc = YDict kvs \<longrightarrow> (\<exists>f \<in> set required_fields. YStr f \<notin> fst ` set kvs))
      \<longrightarrow> (\<exists>e. load_config (Inr doc) = Inl (RuntimeError_config e)))
   \<and> ((\<forall>f \<in> set required_fields. YStr f \<in> fst ` set kvs)
      \<longrightarrow> (\<exists>c. load_config (Inr (YDict kvs)) = Inr c
            \<and> (\<forall>k. YStr k \<in> fst ` set kvs \<longrightarrow> lookup c k = lookup (YDict kvs) k)
            \<and> (YStr ''source_dir'' \<notin> fst ` set kvs \<longrightarrow> lookup c ''source_dir'' = Some YNull)
            \<and> (YStr ''log_level'' \<notin> fst ` set kvs \<longrightarrow> lookup c ''log_level'' = Some (YStr ''INFO''))
            \<and> (YStr ''max_logs'' \<notin> fst ` set kvs \<longrightarrow> lookup c ''max_logs'' = Some (YInt 5))))"
proof (intro conjI impI)
  assume absent: "\<forall>kvs. doc = YDict kvs \<longrightarrow> (\<exists>f \<in> set required_fields. YStr f \<notin> fst ` set kvs)"
  have "\<exists>e. load_config_try (Inr doc) = Inl e"
  proof (cases "\<exists>kvs. doc = YDict kvs")
    case True
    then obtain kvs where d: "doc = YDict kvs" by blast
    then have "check_fields required_fields doc \<noteq> None"
      using absent check_fields_dict [of required_fields kvs] by auto
    then show ?thesis
      by (auto simp: load_config_try_def)
  next
    case False
    then show ?thesis by (simp add: load_config_try_not_dict)
  qed
  then show "\<exists>e. load_config (Inr doc) = Inl (RuntimeError_config e)"
    by (auto simp: load_config_def)
next
  assume present: "\<forall>f \<in> set required_fields. YStr f \<in> fst ` set kvs"
  have chk: "check_fields required_fields (YDict kvs) = None"
    using present by (simp only: check_fields_dict)
  obtain c1 where c1: "setdefault (YDict kvs) ''source_dir'' YNull = Inr c1"
    by simp
  obtain k1 where k1: "c1 = YDict k1"
    and s1: "fst ` set k1 = insert (YStr ''source_dir'') (fst ` set kvs)"
    using setdefault_keys [OF c1] by blast
  obtain c2 where c2: "setdefault (YDict k1) ''log_level'' (YStr ''INFO'') = Inr c2"
    by simp
  obtain k2 where k2: "c2 = YDict k2"
    and s2: "fst ` set k2 = insert (YStr ''log_level'') (fst ` set k1)"
    using setdefault_keys [OF c2] by blast
  obtain c3 where c3: "setdefault (YDict k2) ''max_logs'' (YInt 5) = Inr c3"
    by simp
  have res: "load_config (Inr (YDict kvs)) = Inr c3"
    using chk c1 c2 c3 k1 k2 by (simp add: load_config_def load_config_try_def)
  have m1: "\<And>j. lookup (YDict k1) j
      = (if j = ''source_dir'' \<and> YStr ''source_dir'' \<notin> fst ` set kvs then Some YNull
         else lookup (YDict kvs) j)"
    using setdefault_lookup [OF c1] k1 by simp
  have m2: "\<And>j. lookup (YDict k2) j
      = (if j = ''log_level'' \<and> YStr ''log_level'' \<notin> fst ` set k1 then Some (YStr ''INFO'')
         else lookup (YDict k1) j)"
    using setdefault_lookup [OF c2] k2 by simp
  have m3: "\<And>j. lookup c3 j
      = (if j = ''max_logs'' \<and> YStr ''max_logs'' \<notin> fst ` set k2 then Some (YInt 5)
         else lookup (YDict k2) j)"
    using setdefault_lookup [OF c3] by simp
  have in1: "\<And>j. YStr j \<in> fst ` set k1 \<longleftrightarrow> j = ''source_dir'' \<or> YStr j \<in> fst ` set kvs"
    by (simp add: s1)
  have in2: "\<And>j. YStr j \<in> fst ` set k2 \<longleftrightarrow> j = ''log_level'' \<or> YStr j \<in> fst ` set k1"
    by (simp add: s2)
  have keep: "\<forall>k. YStr k \<in> fst ` set kvs \<longrightarrow> lookup c3 k = lookup (YDict kvs) k"
    by (simp add: m1 m2 m3 in1 in2)
  have d1: "YStr ''source_dir'' \<notin> fst ` set kvs \<longrightarrow> lookup c3 ''source_dir'' = Some YNull"
    by (simp add: m1 m2 m3 in1 in2)
  have d2: "YStr ''log_level'' \<notin> fst ` set kvs \<longrightarrow> lookup c3 ''log_level'' = Some (YStr ''INFO'')"
    by (simp add: m1 m2 m3 in1 in2)
  have d3: "YStr ''max_logs'' \<notin> fst ` set kvs \<longrightarrow> lookup c3 ''max_logs'' = Some (YInt 5)"
    by (simp add: m1 m2 m3 in1 in2)
  show "\<exists>c. load_config (Inr (YDict kvs)) = Inr c
            \<and> (\<forall>k. YStr k \<in> fst ` set kvs \<longrightarrow> lookup c k = lookup (YDict kvs) k)
            \<and> (YStr ''source_dir'' \<notin> fst ` set kvs \<longrightarrow> lookup c ''source_dir'' = Some YNull)
            \<and> (YStr ''log_level'' \<notin> fst ` set kvs \<longrightarrow> lookup c ''log_level'' = Some (YStr ''INFO''))
            \<and> (YStr ''max_logs'' \<notin> fst ` set kvs \<longrightarrow> lookup c ''max_logs'' = Some (YInt 5))"
    using res keep d1 d2 d3 by blast
qed

theorem load_config_required_and_defaults_witness:
  "''min_free_space_gb'' \<in> set required_fields
   \<and> YStr ''min_free_space_gb''
        \<notin> fst ` set [(YStr ''backup_root'', YStr ''/srv/backup''), (YStr ''max_backups'', YInt 3)]
   \<and> load_config (Inr (YDict [(YStr ''backup_root'', YStr ''/srv/backup''),
                               (YStr ''max_backups'', YInt 3)]))
      = Inl (RuntimeError_config (ValueError ''min_free_space_gb''))
   \<and> list_all (\<lambda>f. YStr f \<in> fst ` set [(YStr ''backup_root'', YStr ''/srv/backup''),
                                         (YStr ''min_free_space_gb'', YInt 1),
                                         (YStr ''max_backups'', YInt 3),
                                         (YStr ''log_level'', YStr ''DEBUG'')])
        required_fields
   \<and> load_config (Inr (YDict [(YStr ''backup_root'', YStr ''/srv/backup''),
                               (YStr ''min_free_space_gb'', YInt 1),
                               (YStr ''max_backups'', YInt 3),
                               (YStr ''log_level'', YStr ''DEBUG'')]))
      = Inr (YDict [(YStr ''backup_root'', YStr ''/srv/backup''),
                    (YStr ''min_free_space_gb'', YInt 1),
                    (YStr ''max_backups'', YInt 3),
                    (YStr ''log_level'', YStr ''DEBUG''),
                    (YStr ''source_dir'', YNull),
                    (YStr ''max_logs'', YInt 5)])"
  using load_config_required_and_defaults
    [of "YDict [(YStr ''backup_root'', YStr ''/srv/backup''), (YStr ''max_backups'', YInt 3)]"
        "[(YStr ''backup_root'', YStr ''/srv/backup''),
          (YStr ''min_free_space_gb'', YInt 1),
          (YStr ''max_backups'', YInt 3),
          (YStr ''log_level'', YStr ''DEBUG'')]"]
  by (simp add: load_config_def load_config_try_def required_fields_def)
end
